theory Spec2Isabelle
  imports Complex_Main "HOL-Library.Sublist"
begin

section \<open>Python values used by app.py\<close>

subsection \<open>Strings\<close>

text \<open>
  A Python \<open>str\<close> is modelled as a HOL \<open>string\<close>; a \<open>char\<close> stands for a code point
  below 256, so the tables of \<open>str.isspace\<close> and \<open>str.lower\<close> are Python's tables on
  that range.
\<close>

definition isspace :: "char \<Rightarrow> bool" where
  "isspace c = (let n = (of_char c :: nat) in
     (9 \<le> n \<and> n \<le> 13) \<or> (28 \<le> n \<and> n \<le> 32) \<or> n = 133 \<or> n = 160)"

text \<open>\<open>s.strip()\<close>: whitespace is removed from the left end, then from the right end.\<close>

definition strip :: "string \<Rightarrow> string" where
  "strip s = rev (dropWhile isspace (rev (dropWhile isspace s)))"

definition lower_char :: "char \<Rightarrow> char" where
  "lower_char c = (let n = (of_char c :: nat) in
     if (65 \<le> n \<and> n \<le> 90) \<or> (192 \<le> n \<and> n \<le> 222 \<and> n \<noteq> 215)
     then char_of (n + 32) else c)"

definition lower :: "string \<Rightarrow> string" where
  "lower s = map lower_char s"

text \<open>\<open>sub in s\<close> on strings: \<open>sub\<close> starts at some position of \<open>s\<close>.\<close>

fun str_contains :: "string \<Rightarrow> string \<Rightarrow> bool" where
  "str_contains [] sub = (sub = [])"
| "str_contains (c # cs) sub = (prefix sub (c # cs) \<or> str_contains cs sub)"

text \<open>\<open>s.split(sep)\<close> for a separator of one character; the result is never empty.\<close>

fun split_on :: "char \<Rightarrow> string \<Rightarrow> string list" where
  "split_on sep [] = [[]]"
| "split_on sep (c # cs) =
     (if c = sep then [] # split_on sep cs
      else (case split_on sep cs of
              w # ws \<Rightarrow> (c # w) # ws
            | [] \<Rightarrow> [[c]]))"

definition newline :: char where
  "newline = CHR 0x0A"

text \<open>\<open>sep.join(ws)\<close>, the inverse of \<open>split\<close>.\<close>

fun join :: "char \<Rightarrow> string list \<Rightarrow> string" where
  "join sep [] = []"
| "join sep [w] = w"
| "join sep (w # v # ws) = w @ sep # join sep (v # ws)"

text \<open>The decimal numeral of a natural number, as an f-string prints it.\<close>

definition digit_char :: "nat \<Rightarrow> char" where
  "digit_char d = char_of (48 + d)"

fun str_nat :: "nat \<Rightarrow> string" where
  "str_nat n = (if n < 10 then [digit_char n] else str_nat (n div 10) @ [digit_char (n mod 10)])"

declare str_nat.simps [simp del]

subsection \<open>Errors\<close>

datatype error =
    StopException
  | IndexError
  | AttributeError
  | KeyError
  | TypeError
  | JSONDecodeError
  | APIError

subsection \<open>Values returned by json.loads\<close>

text \<open>
  A float is carried by its exact value; the non-standard literal \<open>NaN\<close> is outside
  the model.
\<close>

datatype pyfloat = Fin rat | PInf | NInf

datatype json =
    JNull
  | JBool bool
  | JInt int
  | JFloat pyfloat
  | JStr string
  | JArr "json list"
  | JObj "(string \<times> json) list"

text \<open>
  \<open>JObj\<close> holds the items of a dict in insertion order. Python's \<open>==\<close> on these
  values: \<open>bool\<close>, \<open>int\<close> and \<open>float\<close> compare by numeric value, lists elementwise,
  dicts by size and by key.
\<close>

fun numval :: "json \<Rightarrow> pyfloat option" where
  "numval (JBool b) = Some (Fin (if b then 1 else 0))"
| "numval (JInt n) = Some (Fin (of_int n))"
| "numval (JFloat f) = Some f"
| "numval _ = None"

fun py_eq :: "json \<Rightarrow> json \<Rightarrow> bool"
  and py_eq_list :: "json list \<Rightarrow> json list \<Rightarrow> bool"
  and py_eq_lookup :: "string \<Rightarrow> json \<Rightarrow> (string \<times> json) list \<Rightarrow> bool"
  and py_eq_items :: "(string \<times> json) list \<Rightarrow> (string \<times> json) list \<Rightarrow> bool"
where
  "py_eq JNull JNull = True"
| "py_eq (JStr s) (JStr t) = (s = t)"
| "py_eq (JArr xs) (JArr ys) = py_eq_list xs ys"
| "py_eq (JObj kvs) (JObj kvs') = (length kvs = length kvs' \<and> py_eq_items kvs kvs')"
| "py_eq a b = (case (numval a, numval b) of (Some x, Some y) \<Rightarrow> x = y | _ \<Rightarrow> False)"
| "py_eq_list [] [] = True"
| "py_eq_list (x # xs) (y # ys) = (py_eq x y \<and> py_eq_list xs ys)"
| "py_eq_list _ _ = False"
| "py_eq_lookup k v [] = False"
| "py_eq_lookup k v ((k', v') # r) = (if k = k' then py_eq v v' else py_eq_lookup k v r)"
| "py_eq_items [] kvs' = True"
| "py_eq_items ((k, v) # kvs) kvs' = (py_eq_lookup k v kvs' \<and> py_eq_items kvs kvs')"

text \<open>\<open>v[key]\<close> with a string key: only a dict can be subscripted by a string.\<close>

definition subscript :: "json \<Rightarrow> string \<Rightarrow> error + json" where
  "subscript v key =
     (case v of
        JObj kvs \<Rightarrow> (case map_of kvs key of None \<Rightarrow> Inl KeyError | Some x \<Rightarrow> Inr x)
      | _ \<Rightarrow> Inl TypeError)"

text \<open>
  \<open>for q in v\<close>: a list yields its elements, a dict its keys, a string its
  characters; anything else is not iterable.
\<close>

definition py_iter :: "json \<Rightarrow> error + json list" where
  "py_iter v =
     (case v of
        JArr xs \<Rightarrow> Inr xs
      | JObj kvs \<Rightarrow> Inr (map (\<lambda>kv. JStr (fst kv)) kvs)
      | JStr s \<Rightarrow> Inr (map (\<lambda>c. JStr [c]) s)
      | _ \<Rightarrow> Inl TypeError)"

section \<open>The model service\<close>

record collected_result =
  query :: json
  resp_id :: string
  research_output :: string

text \<open>
  Prompts are kept as the pieces of their f-strings: literal text, \<open>str\<close> of a parsed
  value, the \<open>repr\<close> of the answer list, and \<open>json.dumps(collected)\<close>.
\<close>

datatype piece =
    Lit string
  | Str_of json
  | Repr_strs "string list"
  | Dumps "collected_result list"

datatype payload =
    Prompt "piece list"
  | Messages "(string \<times> piece list) list"

record request =
  model :: string
  input :: payload
  instructions :: "string option"
  previous_response_id :: "string option"
  tools :: "string list"
  include' :: "string list"

datatype content_part = Output_text string | Refusal string

datatype output_item = Message string "content_part list" | Tool_call string

record response =
  response_id :: string
  output' :: "output_item list"

fun item_id :: "output_item \<Rightarrow> string" where
  "item_id (Message i ps) = i"
| "item_id (Tool_call i) = i"

text \<open>\<open>resp.output[i]\<close>, \<open>item.content[0]\<close> and \<open>part.text\<close>, each with its failure.\<close>

definition output_at :: "response \<Rightarrow> nat \<Rightarrow> error + output_item" where
  "output_at resp i = (if i < length (output' resp) then Inr (output' resp ! i) else Inl IndexError)"

fun content0_text :: "output_item \<Rightarrow> error + string" where
  "content0_text (Tool_call i) = Inl AttributeError"
| "content0_text (Message i []) = Inl IndexError"
| "content0_text (Message i (Output_text t # ps)) = Inr t"
| "content0_text (Message i (Refusal r # ps)) = Inl AttributeError"

definition output_text :: "response \<Rightarrow> nat \<Rightarrow> error + string" where
  "output_text resp i = (case output_at resp i of Inl e \<Rightarrow> Inl e | Inr it \<Rightarrow> content0_text it)"

definition MODEL :: string where
  "MODEL = ''gpt-4.1''"

definition MODEL_MINI :: string where
  "MODEL_MINI = ''gpt-4.1-mini''"

definition TOOLS :: "string list" where
  "TOOLS = [''web_search'']"

definition INCLUDE_RESULTS :: "string list" where
  "INCLUDE_RESULTS = [''web_search_call.results'']"

definition DEVELOPER_MESSAGE :: string where
  "DEVELOPER_MESSAGE = ''You are a deep researcher''"

section \<open>Page state, inputs and effects\<close>

datatype client = OpenAI string

datatype event =
    Title string
  | Write_text string
  | Write_json json
  | Error_msg string
  | Info string
  | Text_input string string
  | Subheader string
  | Button string string
  | Spinner "piece list"
  | Success string
  | Markdown string
  | Warning string
  | Api_call request

record session_state =
  clarify :: "string list option"
  last_topic :: "string option"
  goal_plan :: "json option"
  clarify_id :: "string option"
  last_answers :: "string list option"
  research_started :: "bool option"
  collected :: "collected_result list option"
  queries :: "json option"

definition empty_session :: session_state where
  "empty_session = \<lparr>clarify = None, last_topic = None, goal_plan = None, clarify_id = None,
     last_answers = None, research_started = None, collected = None, queries = None\<rparr>"

record state =
  session :: session_state
  trace :: "event list"

text \<open>
  What one run of the script reads from outside: the environment, the widget values of
  this run, the model service (which may answer by what has happened so far) and
  \<open>json.loads\<close> (\<open>None\<close> when the text is not valid JSON).
\<close>

record world =
  getenv :: "string \<Rightarrow> string option"
  text_value :: "string \<Rightarrow> string"
  clicked :: "string \<Rightarrow> bool"
  service :: "string \<Rightarrow> event list \<Rightarrow> request \<Rightarrow> error + response"
  loads :: "string \<Rightarrow> json option"

datatype exit = Raised error | Returned

type_synonym 'a action = "state \<Rightarrow> (exit + 'a) \<times> state"

definition return :: "'a \<Rightarrow> 'a action" where
  "return x = (\<lambda>s. (Inr x, s))"

definition andthen :: "'a action \<Rightarrow> ('a \<Rightarrow> 'b action) \<Rightarrow> 'b action" where
  "andthen m f = (\<lambda>s. case m s of (Inl e, s') \<Rightarrow> (Inl e, s') | (Inr x, s') \<Rightarrow> f x s')"

definition raise :: "error \<Rightarrow> 'a action" where
  "raise e = (\<lambda>s. (Inl (Raised e), s))"

definition return_early :: "'a action" where
  "return_early = (\<lambda>s. (Inl Returned, s))"

definition lift :: "error + 'a \<Rightarrow> 'a action" where
  "lift r = (case r of Inl e \<Rightarrow> raise e | Inr x \<Rightarrow> return x)"

definition emit :: "event \<Rightarrow> unit action" where
  "emit e = (\<lambda>s. (Inr (), s\<lparr>trace := trace s @ [e]\<rparr>))"

definition read_session :: "(session_state \<Rightarrow> 'a) \<Rightarrow> 'a action" where
  "read_session f = (\<lambda>s. (Inr (f (session s)), s))"

definition write_session :: "(session_state \<Rightarrow> session_state) \<Rightarrow> unit action" where
  "write_session f = (\<lambda>s. (Inr (), s\<lparr>session := f (session s)\<rparr>))"

text \<open>\<open>st.text_input(label, key=key)\<close> and \<open>st.button(label, key=key)\<close>.\<close>

definition text_input :: "world \<Rightarrow> string \<Rightarrow> string \<Rightarrow> string action" where
  "text_input w label key = andthen (emit (Text_input label key)) (\<lambda>_. return (text_value w key))"

definition button :: "world \<Rightarrow> string \<Rightarrow> string \<Rightarrow> bool action" where
  "button w label key = andthen (emit (Button label key)) (\<lambda>_. return (clicked w key))"

text \<open>\<open>client.responses.create(...)\<close>: the request is recorded, then the service answers or raises.\<close>

definition responses_create :: "world \<Rightarrow> client \<Rightarrow> request \<Rightarrow> response action" where
  "responses_create w c req =
     (\<lambda>s. case c of OpenAI k \<Rightarrow>
        (case service w k (trace s) req of
           Inl e \<Rightarrow> (Inl (Raised e), s\<lparr>trace := trace s @ [Api_call req]\<rparr>)
         | Inr resp \<Rightarrow> (Inr resp, s\<lparr>trace := trace s @ [Api_call req]\<rparr>)))"

section \<open>The functions of app.py\<close>

text \<open>
  \<open>get_openai_client\<close>: \<open>not api_key\<close> holds for an unset and for an empty variable;
  \<open>st.stop()\<close> ends the run by raising.
\<close>

definition missing_key :: "client action" where
  "missing_key =
     andthen (emit (Error_msg
       ''OPENAI_API_KEY not set. Please set it in your environment or .env file.''))
       (\<lambda>_. raise StopException)"

definition get_openai_client :: "world \<Rightarrow> client action" where
  "get_openai_client w =
     (case getenv w ''OPENAI_API_KEY'' of
        None \<Rightarrow> missing_key
      | Some api_key \<Rightarrow> if api_key = [] then missing_key else return (OpenAI api_key))"

definition get_topic :: "world \<Rightarrow> string action" where
  "get_topic w = andthen (text_input w ''Research topic:'' ''topic'') (\<lambda>v. return (strip v))"

definition clarify_request :: "string \<Rightarrow> request" where
  \<open>clarify_request topic =
     \<lparr>model = MODEL_MINI,
      input = Prompt
        [Lit ''\<newline>Ask 5 numbered clarifying questions to about: '', Lit topic,
         Lit (''.\<newline>The goal of the questions is to understand the intended purpose of the research.''
              @ ''\<newline>Reply only with the questions.'')],
      instructions = Some DEVELOPER_MESSAGE,
      previous_response_id = None,
      tools = [],
      include' = []\<rparr>\<close>

definition get_clarifying_questions :: "world \<Rightarrow> client \<Rightarrow> string \<Rightarrow> string list action" where
  "get_clarifying_questions w c topic =
     andthen (responses_create w c (clarify_request topic)) (\<lambda>clarify.
     andthen (lift (output_text clarify 0)) (\<lambda>text.
     return (split_on newline text)))"

text \<open>\<open>get_answers\<close>: the loop over \<open>enumerate(questions)\<close>, with the index and the list built so far.\<close>

fun get_answers_loop :: "world \<Rightarrow> nat \<Rightarrow> string list \<Rightarrow> string list \<Rightarrow> string list action" where
  "get_answers_loop w i [] answers = return answers"
| "get_answers_loop w i (question # rest) answers =
     andthen (text_input w question (''answer_'' @ str_nat i)) (\<lambda>answer.
     get_answers_loop w (Suc i) rest (answers @ [answer]))"

definition get_answers :: "world \<Rightarrow> string list \<Rightarrow> string list action" where
  "get_answers w questions = get_answers_loop w 0 questions []"

definition goal_request :: "string \<Rightarrow> string list \<Rightarrow> string option \<Rightarrow> request" where
  \<open>goal_request topic answers cid =
     \<lparr>model = MODEL,
      input = Prompt
        [Lit ''\<newline>Using the user answers '', Repr_strs answers,
         Lit '', write a short goal sentence for the research about '', Lit topic,
         Lit (''.\<newline>Output a JSON list of 5 web search queries that will reach it.''
              @ ''\<newline>Format: {"goal": "...", "queries": ["q1", ...]}\<newline>'')],
      instructions = Some DEVELOPER_MESSAGE,
      previous_response_id = cid,
      tools = [],
      include' = []\<rparr>\<close>

definition json_loads :: "world \<Rightarrow> string \<Rightarrow> json action" where
  "json_loads w text = (case loads w text of None \<Rightarrow> raise JSONDecodeError | Some v \<Rightarrow> return v)"

definition get_goal_and_queries ::
  "world \<Rightarrow> client \<Rightarrow> string \<Rightarrow> string list \<Rightarrow> string option \<Rightarrow> (json \<times> string) action" where
  "get_goal_and_queries w c topic answers cid =
     andthen (responses_create w c (goal_request topic answers cid)) (\<lambda>goal_and_queries.
     andthen (lift (output_text goal_and_queries 0)) (\<lambda>text.
     andthen (json_loads w text) (\<lambda>plan.
     return (plan, response_id goal_and_queries))))"

definition search_request :: "json \<Rightarrow> request" where
  "search_request q =
     \<lparr>model = MODEL,
      input = Prompt [Lit ''Search: '', Str_of q],
      instructions = None,
      previous_response_id = None,
      tools = TOOLS,
      include' = INCLUDE_RESULTS\<rparr>"

definition run_search :: "world \<Rightarrow> client \<Rightarrow> json \<Rightarrow> collected_result action" where
  "run_search w c q =
     andthen (responses_create w c (search_request q)) (\<lambda>resp.
     andthen (lift (output_at resp 0)) (\<lambda>first.
     andthen (lift (output_text resp 1)) (\<lambda>text.
     return \<lparr>query = q, resp_id = item_id first, research_output = text\<rparr>)))"

definition evaluate_request :: "json \<Rightarrow> collected_result list \<Rightarrow> request" where
  "evaluate_request goal col =
     \<lparr>model = MODEL,
      input = Messages
        [(''developer'', [Lit ''Research goal: '', Str_of goal]),
         (''assistant'', [Dumps col]),
         (''user'', [Lit ''Does this information fully satisfy the goal? Answer Yes or No only.''])],
      instructions = Some DEVELOPER_MESSAGE,
      previous_response_id = None,
      tools = [],
      include' = []\<rparr>"

definition evaluate :: "world \<Rightarrow> client \<Rightarrow> json \<Rightarrow> collected_result list \<Rightarrow> bool action" where
  "evaluate w c goal col =
     andthen (responses_create w c (evaluate_request goal col)) (\<lambda>review.
     andthen (lift (output_text review 0)) (\<lambda>text.
     return (str_contains (lower text) ''yes'')))"

definition synthesize_request :: "json \<Rightarrow> collected_result list \<Rightarrow> request" where
  "synthesize_request goal col =
     \<lparr>model = MODEL,
      input = Messages
        [(''developer'',
          [Lit ''Write a complete answer that meets the goal: '', Str_of goal,
           Lit (''. Cite sources inline using [n] and append a reference ''
                @ ''list mapping [n] to url.'')]),
         (''assistant'', [Dumps col])],
      instructions = Some DEVELOPER_MESSAGE,
      previous_response_id = None,
      tools = [],
      include' = []\<rparr>"

definition synthesize :: "world \<Rightarrow> client \<Rightarrow> json \<Rightarrow> collected_result list \<Rightarrow> string action" where
  "synthesize w c goal col =
     andthen (responses_create w c (synthesize_request goal col)) (\<lambda>final.
     lift (output_text final 0))"

subsection \<open>main\<close>

text \<open>Step 2 (lines 118-123): the questions are asked again only for a new topic.\<close>

definition fetch_questions :: "world \<Rightarrow> client \<Rightarrow> string \<Rightarrow> string list action" where
  "fetch_questions w c topic =
     andthen (get_clarifying_questions w c topic) (\<lambda>questions.
     andthen (write_session (\<lambda>ss. ss\<lparr>clarify := Some questions\<rparr>)) (\<lambda>_.
     andthen (write_session (\<lambda>ss. ss\<lparr>last_topic := Some topic\<rparr>)) (\<lambda>_.
     return questions)))"

definition main_clarify :: "world \<Rightarrow> client \<Rightarrow> string \<Rightarrow> string list action" where
  "main_clarify w c topic =
     andthen (read_session (\<lambda>ss. (clarify ss, last_topic ss))) (\<lambda>(cl, lt).
     case cl of
       None \<Rightarrow> fetch_questions w c topic
     | Some questions \<Rightarrow>
         if lt \<noteq> Some topic then fetch_questions w c topic else return questions)"

text \<open>Step 4 (lines 132-139): the plan is generated again only for new answers.\<close>

definition fetch_plan ::
  "world \<Rightarrow> client \<Rightarrow> string \<Rightarrow> string list \<Rightarrow> (json \<times> string) action" where
  "fetch_plan w c topic answers =
     andthen (get_goal_and_queries w c topic answers None) (\<lambda>(plan, cid).
     andthen (write_session (\<lambda>ss. ss\<lparr>goal_plan := Some plan\<rparr>)) (\<lambda>_.
     andthen (write_session (\<lambda>ss. ss\<lparr>clarify_id := Some cid\<rparr>)) (\<lambda>_.
     andthen (write_session (\<lambda>ss. ss\<lparr>last_answers := Some answers\<rparr>)) (\<lambda>_.
     return (plan, cid)))))"

definition main_plan ::
  "world \<Rightarrow> client \<Rightarrow> string \<Rightarrow> string list \<Rightarrow> (json \<times> string) action" where
  "main_plan w c topic answers =
     andthen (read_session (\<lambda>ss. (goal_plan ss, last_answers ss, clarify_id ss))) (\<lambda>(gp, la, ci).
     case gp of
       None \<Rightarrow> fetch_plan w c topic answers
     | Some plan \<Rightarrow>
         if la \<noteq> Some answers then fetch_plan w c topic answers
         else (case ci of None \<Rightarrow> raise KeyError | Some cid \<Rightarrow> return (plan, cid)))"

text \<open>
  The loop of lines 153-159. \<open>collected\<close> is the list held by the session (or a new
  one); the append and the two session writes follow each other with nothing between
  them, so the list passed on here and the one in the session agree.
\<close>

fun research_loop ::
  "world \<Rightarrow> client \<Rightarrow> json \<Rightarrow> json list \<Rightarrow> collected_result list
     \<Rightarrow> collected_result list action" where
  "research_loop w c queries_to_run [] col = return col"
| "research_loop w c queries_to_run (q # qs) col =
     (if \<not> list_ex (\<lambda>item. py_eq (query item) q) col
      then andthen (emit (Spinner [Lit ''Searching: '', Str_of q])) (\<lambda>_.
           andthen (run_search w c q) (\<lambda>result.
           andthen (write_session (\<lambda>ss. ss\<lparr>collected := Some (col @ [result])\<rparr>)) (\<lambda>_.
           andthen (write_session (\<lambda>ss. ss\<lparr>queries := Some queries_to_run\<rparr>)) (\<lambda>_.
           research_loop w c queries_to_run qs (col @ [result])))))
      else research_loop w c queries_to_run qs col)"

definition more_request :: "collected_result list \<Rightarrow> string \<Rightarrow> request" where
  "more_request col cid =
     \<lparr>model = MODEL,
      input = Messages
        [(''assistant'', [Lit ''Current data: '', Dumps col]),
         (''user'',
          [Lit (''We still haven't met the goal. Give 5 more, new, high-value web ''
                @ ''search queries only as a JSON list.'')])],
      instructions = None,
      previous_response_id = Some cid,
      tools = [],
      include' = []\<rparr>"

text \<open>Step 6 (lines 161-179).\<close>

definition main_evaluate ::
  "world \<Rightarrow> client \<Rightarrow> string \<Rightarrow> json \<Rightarrow> collected_result list \<Rightarrow> unit action" where
  "main_evaluate w c cid goal col =
     andthen (evaluate w c goal col) (\<lambda>satisfied.
     if satisfied
     then andthen (emit (Success ''Goal satisfied! Generating final report...'')) (\<lambda>_.
          andthen (synthesize w c goal col) (\<lambda>final_report.
          andthen (emit (Markdown final_report)) (\<lambda>_.
          andthen (write_session (\<lambda>ss. ss\<lparr>research_started := Some False\<rparr>)) (\<lambda>_.
          write_session (\<lambda>ss. ss\<lparr>collected := Some []\<rparr>)))))
     else andthen (responses_create w c (more_request col cid)) (\<lambda>more.
          andthen (lift (output_text more 0)) (\<lambda>text.
          andthen (json_loads w text) (\<lambda>new_queries.
          andthen (write_session (\<lambda>ss. ss\<lparr>queries := Some new_queries\<rparr>)) (\<lambda>_.
          emit (Warning
            ''More research needed. New queries generated. Click 'Run Research' again.''))))))"

text \<open>Lines 150-159: the research loop with what precedes it inside the \<open>if\<close>.\<close>

definition main_collect :: "world \<Rightarrow> client \<Rightarrow> json \<Rightarrow> collected_result list action" where
  "main_collect w c plan_queries =
     andthen (write_session (\<lambda>ss. ss\<lparr>research_started := Some True\<rparr>)) (\<lambda>_.
     andthen (read_session (\<lambda>ss. case collected ss of None \<Rightarrow> [] | Some col \<Rightarrow> col)) (\<lambda>col.
     andthen (read_session (\<lambda>ss.
        if col = [] then plan_queries
        else (case queries ss of None \<Rightarrow> plan_queries | Some stored \<Rightarrow> stored))) (\<lambda>queries_to_run.
     andthen (lift (py_iter queries_to_run)) (\<lambda>qs.
     research_loop w c queries_to_run qs col))))"

text \<open>
  Lines 107-129: up to the answers. Each \<open>return\<close> of the source leaves the run through
  \<open>return_early\<close>; \<open>all(answers)\<close> fails on an empty answer.
\<close>

definition main_steps_1_3 :: "world \<Rightarrow> (client \<times> string \<times> string list) action" where
  "main_steps_1_3 w =
     andthen (emit (Title ''Deep Research Clone'')) (\<lambda>_.
     andthen (emit (Write_text ''AI-powered research assistant with web search.'')) (\<lambda>_.
     andthen (get_openai_client w) (\<lambda>c.
     andthen (get_topic w) (\<lambda>topic.
     if topic = []
     then andthen (emit (Info ''Enter a research topic to begin.'')) (\<lambda>_. return_early)
     else
     andthen (main_clarify w c topic) (\<lambda>questions.
     andthen (get_answers w questions) (\<lambda>answers.
     if \<not> list_all (\<lambda>a. a \<noteq> []) answers
     then andthen (emit (Info ''Please answer all clarifying questions.'')) (\<lambda>_. return_early)
     else return (c, topic, answers)))))))"

text \<open>
  Lines 131-159: the plan, its display, the button and the research loop. The body of
  the \<open>if\<close> of line 149 is the rest of \<open>main\<close>, so a run in which the condition is false
  ends there.
\<close>

definition main_steps_4_5 ::
  "world \<Rightarrow> client \<Rightarrow> string \<Rightarrow> string list \<Rightarrow> (string \<times> json \<times> collected_result list) action" where
  "main_steps_4_5 w c topic answers =
     andthen (main_plan w c topic answers) (\<lambda>(plan, cid).
     andthen (lift (subscript plan ''goal'')) (\<lambda>goal.
     andthen (lift (subscript plan ''queries'')) (\<lambda>plan_queries.
     andthen (emit (Subheader ''Research Goal'')) (\<lambda>_.
     andthen (emit (Write_json goal)) (\<lambda>_.
     andthen (emit (Subheader ''Initial Search Queries'')) (\<lambda>_.
     andthen (emit (Write_json plan_queries)) (\<lambda>_.
     andthen (button w ''Run Research'' ''run_research'') (\<lambda>pressed.
     andthen (if pressed then return True
              else read_session (\<lambda>ss. research_started ss = Some True)) (\<lambda>go.
     if go then andthen (main_collect w c plan_queries) (\<lambda>col. return (cid, goal, col))
     else return_early)))))))))"

definition main_body :: "world \<Rightarrow> unit action" where
  "main_body w =
     andthen (main_steps_1_3 w) (\<lambda>(c, topic, answers).
     andthen (main_steps_4_5 w c topic answers) (\<lambda>(cid, goal, col).
     main_evaluate w c cid goal col))"

text \<open>One run of the script: \<open>main\<close> returns, or an exception leaves it.\<close>

definition finish :: "(exit + unit) \<times> state \<Rightarrow> (error + unit) \<times> state" where
  "finish r =
     (case r of
        (Inl (Raised e), s') \<Rightarrow> (Inl e, s')
      | (Inl Returned, s') \<Rightarrow> (Inr (), s')
      | (Inr u, s') \<Rightarrow> (Inr (), s'))"

definition main :: "world \<Rightarrow> state \<Rightarrow> (error + unit) \<times> state" where
  "main w s = finish (main_body w s)"

text \<open>
  The session states the page can be in: the empty one of a new session, and the one
  left by any run (with any inputs and any service) started from such a state.
\<close>

inductive reachable :: "session_state \<Rightarrow> bool" where
  start: "reachable empty_session"
| rerun: "reachable ss \<Longrightarrow> main w \<lparr>session = ss, trace = []\<rparr> = (r, s') \<Longrightarrow> reachable (session s')"

section \<open>Notions used to state the properties\<close>

text \<open>No earlier element of the list has a query equal (by \<open>==\<close>) to that of a later one.\<close>

fun distinct_queries :: "collected_result list \<Rightarrow> bool" where
  "distinct_queries [] = True"
| "distinct_queries (x # xs) =
     (\<not> list_ex (\<lambda>y. py_eq (query x) (query y)) xs \<and> distinct_queries xs)"

text \<open>The invariant of the session: the stored list, when there is one, has distinct queries.\<close>

definition collected_distinct :: "session_state \<Rightarrow> bool" where
  "collected_distinct ss = (case collected ss of None \<Rightarrow> True | Some col \<Rightarrow> distinct_queries col)"

text \<open>
  A value as Python builds it: the keys of every dict are distinct. On such values \<open>==\<close>
  is reflexive.
\<close>

fun wf_json :: "json \<Rightarrow> bool" where
  "wf_json (JArr xs) = list_all wf_json xs"
| "wf_json (JObj kvs) = (distinct (map fst kvs) \<and> list_all (\<lambda>kv. wf_json (snd kv)) kvs)"
| "wf_json v = True"

text \<open>
  The queries of a list that a reader of the specification expects to be searched:
  those equal to none already seen, each once, in order.
\<close>

fun fresh_queries :: "json list \<Rightarrow> json list \<Rightarrow> json list" where
  "fresh_queries seen [] = []"
| "fresh_queries seen (q # qs) =
     (if list_ex (\<lambda>x. py_eq x q) seen then fresh_queries seen qs
      else q # fresh_queries (seen @ [q]) qs)"

text \<open>The requests sent to the model service, in order.\<close>

fun api_calls :: "event list \<Rightarrow> request list" where
  "api_calls [] = []"
| "api_calls (Api_call r # es) = r # api_calls es"
| "api_calls (e # es) = api_calls es"

section \<open>A sample world\<close>

text \<open>
  A service that answers each kind of request with a fixed text, and \<open>json.loads\<close> on
  the texts it uses. The review text and the text of the follow-up queries are
  parameters.
\<close>

definition sample_questions :: string where
  "sample_questions = ''1. Why?\<newline>2. For whom?''"

definition sample_plan_text :: string where
  \<open>sample_plan_text = ''{"goal": "g", "queries": ["a", "b", "a"]}''\<close>

definition sample_more_text :: string where
  \<open>sample_more_text = ''["c", "a"]''\<close>

definition sample_loads :: "string \<Rightarrow> json option" where
  "sample_loads text =
     (if text = sample_plan_text
      then Some (JObj [(''goal'', JStr ''g''), (''queries'', JArr [JStr ''a'', JStr ''b'', JStr ''a''])])
      else if text = sample_more_text then Some (JArr [JStr ''c'', JStr ''a''])
      else None)"

definition text_response :: "string \<Rightarrow> string \<Rightarrow> response" where
  "text_response i text = \<lparr>response_id = i, output' = [Message ''msg'' [Output_text text]]\<rparr>"

definition sample_service ::
  "string \<Rightarrow> string \<Rightarrow> string \<Rightarrow> string \<Rightarrow> event list \<Rightarrow> request \<Rightarrow> error + response" where
  "sample_service plan_text review more_text k tr req =
     (if model req = MODEL_MINI then Inr (text_response ''resp_clarify'' sample_questions)
      else if tools req \<noteq> []
      then Inr \<lparr>response_id = ''resp_search'',
                output' = [Tool_call ''ws'', Message ''msg'' [Output_text ''found'']]\<rparr>
      else (case input req of
              Prompt ps \<Rightarrow> Inr (text_response ''resp_plan'' plan_text)
            | Messages ms \<Rightarrow>
                if length ms = 3 then Inr (text_response ''resp_review'' review)
                else if previous_response_id req = None
                then Inr (text_response ''resp_final'' ''report'')
                else Inr (text_response ''resp_more'' more_text)))"

definition sample_text_value :: "string \<Rightarrow> string" where
  "sample_text_value key =
     (if key = ''topic'' then '' cats '' else if key = ''answer_0'' then ''fun''
      else if key = ''answer_1'' then ''me'' else [])"

definition sample_world :: "string \<Rightarrow> string \<Rightarrow> string \<Rightarrow> world" where
  "sample_world plan_text review more_text =
     \<lparr>getenv = (\<lambda>name. if name = ''OPENAI_API_KEY'' then Some ''sk'' else None),
      text_value = sample_text_value,
      clicked = (\<lambda>key. True),
      service = sample_service plan_text review more_text,
      loads = sample_loads\<rparr>"

definition new_page :: "session_state \<Rightarrow> state" where
  "new_page ss = \<lparr>session = ss, trace = []\<rparr>"

text \<open>The plan of the sample world, a search result, and the states its run passes through.\<close>

definition sample_plan :: json where
  "sample_plan = JObj [(''goal'', JStr ''g''), (''queries'', JArr [JStr ''a'', JStr ''b'', JStr ''a''])]"

definition sample_found :: "string \<Rightarrow> collected_result" where
  "sample_found q = \<lparr>query = JStr q, resp_id = ''ws'', research_output = ''found''\<rparr>"

definition sample_s3 :: state where
  "sample_s3 =
     \<lparr>session = empty_session\<lparr>clarify := Some [''1. Why?'', ''2. For whom?''],
                               last_topic := Some ''cats''\<rparr>,
      trace = [Title ''Deep Research Clone'',
               Write_text ''AI-powered research assistant with web search.'',
               Text_input ''Research topic:'' ''topic'',
               Api_call (clarify_request ''cats''),
               Text_input ''1. Why?'' ''answer_0'',
               Text_input ''2. For whom?'' ''answer_1'']\<rparr>"

definition sample_s5 :: state where
  "sample_s5 =
     \<lparr>session = (session sample_s3)
        \<lparr>goal_plan := Some sample_plan, clarify_id := Some ''resp_plan'',
         last_answers := Some [''fun'', ''me''], research_started := Some True,
         collected := Some [sample_found ''a'', sample_found ''b''],
         queries := Some (JArr [JStr ''a'', JStr ''b'', JStr ''a''])\<rparr>,
      trace = trace sample_s3 @
        [Api_call (goal_request ''cats'' [''fun'', ''me''] None),
         Subheader ''Research Goal'', Write_json (JStr ''g''),
         Subheader ''Initial Search Queries'', Write_json (JArr [JStr ''a'', JStr ''b'', JStr ''a'']),
         Button ''Run Research'' ''run_research'',
         Spinner [Lit ''Searching: '', Str_of (JStr ''a'')], Api_call (search_request (JStr ''a'')),
         Spinner [Lit ''Searching: '', Str_of (JStr ''b'')], Api_call (search_request (JStr ''b''))]\<rparr>"

section \<open>Running actions\<close>

lemma andthen_return [simp]: "andthen (return x) f s = f x s"
  by (simp add: andthen_def return_def)

lemma andthen_raise [simp]: "andthen (raise e) f s = (Inl (Raised e), s)"
  by (simp add: andthen_def raise_def)

lemma andthen_return_early [simp]: "andthen return_early f s = (Inl Returned, s)"
  by (simp add: andthen_def return_early_def)

lemma andthen_emit [simp]: "andthen (emit e) f s = f () (s\<lparr>trace := trace s @ [e]\<rparr>)"
  by (simp add: andthen_def emit_def)

lemma andthen_read_session [simp]: "andthen (read_session g) f s = f (g (session s)) s"
  by (simp add: andthen_def read_session_def)

lemma andthen_write_session [simp]:
  "andthen (write_session g) f s = f () (s\<lparr>session := g (session s)\<rparr>)"
  by (simp add: andthen_def write_session_def)

lemma andthen_lift_Inr [simp]: "andthen (lift (Inr x)) f s = f x s"
  by (simp add: lift_def)

lemma andthen_lift_Inl [simp]: "andthen (lift (Inl e)) f s = (Inl (Raised e), s)"
  by (simp add: lift_def)

lemma return_apply [simp]: "return x s = (Inr x, s)"
  by (simp add: return_def)

lemma raise_apply [simp]: "raise e s = (Inl (Raised e), s)"
  by (simp add: raise_def)

lemma return_early_apply [simp]: "return_early s = (Inl Returned, s)"
  by (simp add: return_early_def)

lemma emit_apply [simp]: "emit e s = (Inr (), s\<lparr>trace := trace s @ [e]\<rparr>)"
  by (simp add: emit_def)

lemma write_session_apply [simp]: "write_session g s = (Inr (), s\<lparr>session := g (session s)\<rparr>)"
  by (simp add: write_session_def)

lemma read_session_apply [simp]: "read_session g s = (Inr (g (session s)), s)"
  by (simp add: read_session_def)

lemma lift_apply [simp]: "lift (Inr x) s = (Inr x, s)" "lift (Inl e) s = (Inl (Raised e), s)"
  by (simp_all add: lift_def)

lemma andthen_assoc: "andthen (andthen m f) g = andthen m (\<lambda>x. andthen (f x) g)"
  by (auto simp: andthen_def fun_eq_iff split: prod.splits sum.splits)

lemma andthen_Inl: "m s = (Inl e, s') \<Longrightarrow> andthen m f s = (Inl e, s')"
  by (simp add: andthen_def)

lemma andthen_Inr: "m s = (Inr x, s') \<Longrightarrow> andthen m f s = f x s'"
  by (simp add: andthen_def)

lemma text_input_run [simp]:
  "andthen (text_input w label key) f s = f (text_value w key) (s\<lparr>trace := trace s @ [Text_input label key]\<rparr>)"
  by (simp add: text_input_def andthen_assoc)

lemma get_openai_client_missing:
  assumes "getenv w ''OPENAI_API_KEY'' = None \<or> getenv w ''OPENAI_API_KEY'' = Some []"
  shows "get_openai_client w s = (Inl (Raised StopException), s\<lparr>trace := trace s @
     [Error_msg ''OPENAI_API_KEY not set. Please set it in your environment or .env file.'']\<rparr>)"
  using assms by (auto simp: get_openai_client_def missing_key_def)

lemma get_openai_client_present:
  assumes "getenv w ''OPENAI_API_KEY'' = Some k" "k \<noteq> []"
  shows "get_openai_client w s = (Inr (OpenAI k), s)"
  using assms by (auto simp: get_openai_client_def return_def)

section \<open>Facts about the helpers\<close>

lemma api_calls_append: "api_calls (xs @ ys) = api_calls xs @ api_calls ys"
  by (induction xs rule: api_calls.induct) simp_all

lemma responses_create_Inr:
  "service w k (trace s) req = Inr resp \<Longrightarrow>
   responses_create w (OpenAI k) req s = (Inr resp, s\<lparr>trace := trace s @ [Api_call req]\<rparr>)"
  by (simp add: responses_create_def)

lemma responses_create_Inl:
  "service w k (trace s) req = Inl e \<Longrightarrow>
   responses_create w (OpenAI k) req s = (Inl (Raised e), s\<lparr>trace := trace s @ [Api_call req]\<rparr>)"
  by (simp add: responses_create_def)

lemma responses_create_cases:
  assumes "responses_create w (OpenAI k) req s = (r, s')"
  shows "s' = s\<lparr>trace := trace s @ [Api_call req]\<rparr> \<and>
         (case service w k (trace s) req of Inl e \<Rightarrow> r = Inl (Raised e) | Inr resp \<Rightarrow> r = Inr resp)"
  using assms by (auto simp: responses_create_def split: sum.splits)

subsection \<open>Strings\<close>

lemma str_contains_iff: "str_contains s sub \<longleftrightarrow> (\<exists>pre post. s = pre @ sub @ post)"
proof (induction s)
  case Nil
  then show ?case by auto
next
  case (Cons c cs)
  show ?case
  proof
    assume "str_contains (c # cs) sub"
    then consider "prefix sub (c # cs)" | "str_contains cs sub" by auto
    then show "\<exists>pre post. c # cs = pre @ sub @ post"
    proof cases
      case 1
      then obtain post where "c # cs = sub @ post" by (auto simp: prefix_def)
      then have "c # cs = [] @ sub @ post" by simp
      then show ?thesis by blast
    next
      case 2
      then obtain pre post where "cs = pre @ sub @ post" using Cons.IH by auto
      then have "c # cs = (c # pre) @ sub @ post" by simp
      then show ?thesis by blast
    qed
  next
    assume "\<exists>pre post. c # cs = pre @ sub @ post"
    then obtain pre post where e: "c # cs = pre @ sub @ post" by auto
    show "str_contains (c # cs) sub"
    proof (cases pre)
      case Nil
      with e have "prefix sub (c # cs)" by (simp add: prefix_def)
      then show ?thesis by simp
    next
      case (Cons p pre')
      with e have "cs = pre' @ sub @ post" by simp
      then have "str_contains cs sub" using Cons.IH by blast
      then show ?thesis by simp
    qed
  qed
qed

lemma split_on_not_Nil: "split_on sep s \<noteq> []"
  by (induction s) (auto split: list.splits)

lemma join_Cons_Cons: "ws \<noteq> [] \<Longrightarrow> join sep (w # ws) = w @ sep # join sep ws"
  by (cases ws) simp_all

lemma join_split_on: "join sep (split_on sep s) = s"
proof (induction s)
  case Nil
  then show ?case by simp
next
  case (Cons c cs)
  obtain w ws where r: "split_on sep cs = w # ws"
    using split_on_not_Nil [of sep cs] by (cases "split_on sep cs") auto
  show ?case
  proof (cases "c = sep")
    case True
    then show ?thesis using Cons.IH by (simp add: join_Cons_Cons split_on_not_Nil)
  next
    case False
    have "join sep ((c # w) # ws) = c # join sep (w # ws)"
      by (cases ws) simp_all
    then show ?thesis using False r Cons.IH by simp
  qed
qed

lemma split_on_no_sep: "w \<in> set (split_on sep s) \<Longrightarrow> sep \<notin> set w"
proof (induction s arbitrary: w)
  case Nil
  then show ?case by simp
next
  case (Cons c cs)
  then show ?case
    by (cases "split_on sep cs") (auto split: if_splits)
qed

lemma length_split_on: "length (split_on sep s) = Suc (count_list s sep)"
  by (induction s) (auto split: list.splits simp: split_on_not_Nil)

lemma dropWhile_all: "list_all P xs \<Longrightarrow> dropWhile P xs = []"
  by (induction xs) auto

lemma strip_eq_Nil_iff: "strip s = [] \<longleftrightarrow> list_all isspace s"
proof
  assume "strip s = []"
  then have "dropWhile isspace (rev (dropWhile isspace s)) = []" by (simp add: strip_def)
  then have a: "\<forall>x \<in> set (dropWhile isspace s). isspace x"
    by (simp add: dropWhile_eq_Nil_conv)
  have "dropWhile isspace s = []"
  proof (rule ccontr)
    assume n: "dropWhile isspace s \<noteq> []"
    then have "\<not> isspace (hd (dropWhile isspace s))" by (rule hd_dropWhile)
    moreover have "hd (dropWhile isspace s) \<in> set (dropWhile isspace s)" using n by simp
    ultimately show False using a by blast
  qed
  then show "list_all isspace s" by (simp add: dropWhile_eq_Nil_conv list_all_iff)
next
  assume "list_all isspace s"
  then show "strip s = []" by (simp add: strip_def dropWhile_all)
qed

lemma strip_decomp:
  "\<exists>pre post. s = pre @ strip s @ post \<and> list_all isspace pre \<and> list_all isspace post"
proof -
  let ?r = "dropWhile isspace s"
  have 1: "s = takeWhile isspace s @ ?r" by simp
  have "rev (takeWhile isspace (rev ?r) @ dropWhile isspace (rev ?r)) = rev (rev ?r)"
    by (simp only: takeWhile_dropWhile_id)
  then have "rev (dropWhile isspace (rev ?r)) @ rev (takeWhile isspace (rev ?r)) = ?r"
    by (simp only: rev_append rev_rev_ident)
  then have 2: "?r = strip s @ rev (takeWhile isspace (rev ?r))"
    by (simp only: strip_def)
  have 3: "list_all isspace (takeWhile isspace s)"
    by (auto simp: list_all_iff dest: set_takeWhileD)
  have 4: "list_all isspace (rev (takeWhile isspace (rev ?r)))"
    by (auto simp: list_all_iff dest: set_takeWhileD)
  have "s = takeWhile isspace s @ strip s @ rev (takeWhile isspace (rev ?r))"
    using 1 2 by metis
  then show ?thesis using 3 4 by blast
qed

lemma strip_ends:
  assumes "strip s \<noteq> []"
  shows "\<not> isspace (hd (strip s)) \<and> \<not> isspace (last (strip s))"
proof -
  let ?r = "dropWhile isspace s"
  let ?t = "dropWhile isspace (rev ?r)"
  have t: "?t \<noteq> []" using assms by (simp add: strip_def)
  have r: "?r \<noteq> []"
  proof
    assume e: "?r = []"
    have "?t = []" unfolding e by simp
    with t show False by simp
  qed
  have "last (strip s) = hd ?t" using t by (simp add: strip_def last_rev)
  moreover have "\<not> isspace (hd ?t)" using t by (rule hd_dropWhile)
  ultimately have l: "\<not> isspace (last (strip s))" by simp
  have "hd (strip s) = last ?t" using t by (simp add: strip_def hd_rev)
  also have "\<dots> = last (rev ?r)"
  proof -
    have "last ?t = last (takeWhile isspace (rev ?r) @ ?t)"
      using last_appendR [OF t, of "takeWhile isspace (rev ?r)"] by (rule sym)
    also have "\<dots> = last (rev ?r)"
      by (simp only: takeWhile_dropWhile_id)
    finally show ?thesis .
  qed
  also have "\<dots> = hd ?r" using r by (simp add: last_rev)
  finally have "hd (strip s) = hd ?r" .
  moreover have "\<not> isspace (hd ?r)" using r by (rule hd_dropWhile)
  ultimately show ?thesis using l by simp
qed

section \<open>The single functions\<close>

lemma evaluate_unfold:
  "evaluate w (OpenAI k) goal col s =
     (case service w k (trace s) (evaluate_request goal col) of
        Inl e \<Rightarrow> (Inl (Raised e), s\<lparr>trace := trace s @ [Api_call (evaluate_request goal col)]\<rparr>)
      | Inr review \<Rightarrow>
          (case output_text review 0 of
             Inl e \<Rightarrow> (Inl (Raised e), s\<lparr>trace := trace s @ [Api_call (evaluate_request goal col)]\<rparr>)
           | Inr text \<Rightarrow> (Inr (str_contains (lower text) ''yes''),
                          s\<lparr>trace := trace s @ [Api_call (evaluate_request goal col)]\<rparr>)))"
  by (simp add: evaluate_def andthen_def responses_create_def split: sum.splits)

text \<open>
  C2: when \<open>evaluate\<close> returns a value, the service answered with a review whose first
  output holds a text, and the value is true exactly when the lowercased text contains
  \<open>yes\<close>; so it is true only if the text contains \<open>yes\<close>, whatever the case of the
  letters.
\<close>

theorem evaluate_true_only_if_yes:
  assumes "evaluate w (OpenAI k) goal col s = (Inr b, s')"
  shows "\<exists>review text.
           service w k (trace s) (evaluate_request goal col) = Inr review \<and>
           output_text review 0 = Inr text \<and>
           (b \<longleftrightarrow> (\<exists>pre post. lower text = pre @ ''yes'' @ post))"
  using assms by (auto simp: evaluate_unfold str_contains_iff split: sum.splits)

theorem evaluate_true_only_if_yes_witness:
  "evaluate (sample_world sample_plan_text ''Yes.'' sample_more_text) (OpenAI ''sk'') (JStr ''g'') []
     (new_page empty_session) =
     (Inr True, \<lparr>session = empty_session, trace = [Api_call (evaluate_request (JStr ''g'') [])]\<rparr>)
   \<and> (\<exists>pre post. lower ''Yes.'' = pre @ ''yes'' @ post)"
proof -
  let ?w = "sample_world sample_plan_text ''Yes.'' sample_more_text"
  have s: "service ?w ''sk'' [] (evaluate_request (JStr ''g'') []) = Inr (text_response ''resp_review'' ''Yes.'')"
    by (simp add: sample_world_def sample_service_def evaluate_request_def MODEL_def MODEL_MINI_def)
  have t: "output_text (text_response ''resp_review'' ''Yes.'') 0 = Inr ''Yes.''"
    by (simp add: output_text_def output_at_def text_response_def)
  have l: "lower ''Yes.'' = ''yes.''"
    by code_simp
  have e: "evaluate ?w (OpenAI ''sk'') (JStr ''g'') [] (new_page empty_session) =
     (Inr True, \<lparr>session = empty_session, trace = [Api_call (evaluate_request (JStr ''g'') [])]\<rparr>)"
    by (simp add: evaluate_unfold new_page_def s t l)
  from evaluate_true_only_if_yes [OF e] show ?thesis
    using e by (simp add: new_page_def s t)
qed


lemma get_clarifying_questions_unfold:
  "get_clarifying_questions w (OpenAI k) topic s =
     (case service w k (trace s) (clarify_request topic) of
        Inl e \<Rightarrow> (Inl (Raised e), s\<lparr>trace := trace s @ [Api_call (clarify_request topic)]\<rparr>)
      | Inr resp \<Rightarrow>
          (case output_text resp 0 of
             Inl e \<Rightarrow> (Inl (Raised e), s\<lparr>trace := trace s @ [Api_call (clarify_request topic)]\<rparr>)
           | Inr text \<Rightarrow> (Inr (split_on newline text),
                          s\<lparr>trace := trace s @ [Api_call (clarify_request topic)]\<rparr>)))"
  by (simp add: get_clarifying_questions_def andthen_def responses_create_def split: sum.splits)

lemma sample_clarify:
  "service (sample_world p r m) k tr (clarify_request topic) =
     Inr (text_response ''resp_clarify'' sample_questions)"
  by (simp add: sample_world_def sample_service_def clarify_request_def)

lemma output_text_text_response: "output_text (text_response i text) 0 = Inr text"
  by (simp add: output_text_def output_at_def text_response_def)

lemma split_sample_questions: "split_on newline sample_questions = [''1. Why?'', ''2. For whom?'']"
  by code_simp

text \<open>
  C6: \<open>get_clarifying_questions\<close> returns the lines of the output text, in order: joining
  them with newlines gives the text back, no line holds a newline, and there is one line
  more than there are newlines. Nothing fixes the number at 5; a service answering with
  two lines gives two questions.
\<close>

theorem clarifying_questions_are_the_lines:
  assumes "service w k (trace s) (clarify_request topic) = Inr resp"
      and "output_text resp 0 = Inr text"
  shows "\<exists>questions.
           get_clarifying_questions w (OpenAI k) topic s =
             (Inr questions, s\<lparr>trace := trace s @ [Api_call (clarify_request topic)]\<rparr>) \<and>
           join newline questions = text \<and>
           (\<forall>q \<in> set questions. newline \<notin> set q) \<and>
           length questions = Suc (count_list text newline) \<and>
           (\<exists>w' k' topic' s' r'.
              get_clarifying_questions w' (OpenAI k') topic' s' = (Inr [''1. Why?'', ''2. For whom?''], r'))"
proof -
  have "get_clarifying_questions (sample_world [] [] []) (OpenAI []) [] (new_page empty_session) =
          (Inr [''1. Why?'', ''2. For whom?''],
           (new_page empty_session)\<lparr>trace := trace (new_page empty_session) @ [Api_call (clarify_request [])]\<rparr>)"
    by (simp add: get_clarifying_questions_unfold sample_clarify output_text_text_response
        split_sample_questions)
  then have "\<exists>w' k' topic' s' r'.
      get_clarifying_questions w' (OpenAI k') topic' s' = (Inr [''1. Why?'', ''2. For whom?''], r')"
    by blast
  then show ?thesis
    using assms
    by (simp add: get_clarifying_questions_unfold join_split_on split_on_no_sep length_split_on)
qed

theorem clarifying_questions_are_the_lines_witness:
  "get_clarifying_questions (sample_world sample_plan_text ''Yes.'' sample_more_text) (OpenAI ''sk'')
     ''cats'' (new_page empty_session) =
     (Inr [''1. Why?'', ''2. For whom?''],
      \<lparr>session = empty_session, trace = [Api_call (clarify_request ''cats'')]\<rparr>)
   \<and> join newline [''1. Why?'', ''2. For whom?''] = sample_questions
   \<and> length [''1. Why?'', ''2. For whom?''] \<noteq> (5::nat)"
  using clarifying_questions_are_the_lines
    [of "sample_world sample_plan_text ''Yes.'' sample_more_text" "''sk''" "new_page empty_session" "''cats''",
     OF sample_clarify output_text_text_response]
  by (simp add: get_clarifying_questions_unfold sample_clarify output_text_text_response
        split_sample_questions new_page_def)

lemma get_answers_loop_run:
  "get_answers_loop w i qs acc s =
     (Inr (acc @ map (\<lambda>j. text_value w (''answer_'' @ str_nat (i + j))) [0..<length qs]),
      s\<lparr>trace := trace s @ map (\<lambda>j. Text_input (qs ! j) (''answer_'' @ str_nat (i + j))) [0..<length qs]\<rparr>)"
proof (induction qs arbitrary: i acc s)
  case Nil
  then show ?case by simp
next
  case (Cons q qs)
  show ?case
    by (simp add: Cons.IH map_upt_Suc del: upt_Suc)
qed

lemma get_answers_run:
  "get_answers w qs s =
     (Inr (map (\<lambda>j. text_value w (''answer_'' @ str_nat j)) [0..<length qs]),
      s\<lparr>trace := trace s @ map (\<lambda>j. Text_input (qs ! j) (''answer_'' @ str_nat j)) [0..<length qs]\<rparr>)"
  by (simp add: get_answers_def get_answers_loop_run)

lemma str_nat_not_Nil: "str_nat n \<noteq> []"
  by (subst str_nat.simps) simp

lemma digit_char_inj: "a < 10 \<Longrightarrow> b < 10 \<Longrightarrow> digit_char a = digit_char b \<Longrightarrow> a = b"
proof -
  assume a: "a < 10" and b: "b < 10" and e: "digit_char a = digit_char b"
  have "(of_char (digit_char a) :: nat) = of_char (digit_char b)" using e by simp
  then have "(48 + a) mod 256 = (48 + b) mod 256"
    by (simp add: digit_char_def)
  then show "a = b" using a b by simp
qed

lemma str_nat_inj: "str_nat n = str_nat m \<Longrightarrow> n = m"
proof (induction n arbitrary: m rule: str_nat.induct)
  case (1 n)
  show ?case
  proof (cases "n < 10")
    case True
    then have n: "str_nat n = [digit_char n]" by (subst str_nat.simps) simp
    show ?thesis
    proof (cases "m < 10")
      case True
      then have "str_nat m = [digit_char m]" by (subst str_nat.simps) simp
      with n "1.prems" have "digit_char n = digit_char m" by simp
      then show ?thesis using \<open>n < 10\<close> True by (rule digit_char_inj [rotated 2])
    next
      case False
      then have "str_nat m = str_nat (m div 10) @ [digit_char (m mod 10)]"
        by (subst str_nat.simps) simp
      with n "1.prems" have "str_nat (m div 10) = []" by simp
      then show ?thesis using str_nat_not_Nil by blast
    qed
  next
    case False
    then have n: "str_nat n = str_nat (n div 10) @ [digit_char (n mod 10)]"
      by (subst str_nat.simps) simp
    show ?thesis
    proof (cases "m < 10")
      case True
      then have "str_nat m = [digit_char m]" by (subst str_nat.simps) simp
      with n "1.prems" have "str_nat (n div 10) = []" by simp
      then show ?thesis using str_nat_not_Nil by blast
    next
      case m: False
      then have "str_nat m = str_nat (m div 10) @ [digit_char (m mod 10)]"
        by (subst str_nat.simps) simp
      with n "1.prems" have e: "str_nat (n div 10) = str_nat (m div 10)"
        and d: "digit_char (n mod 10) = digit_char (m mod 10)" by simp_all
      from e have "n div 10 = m div 10" using "1.IH" False by blast
      moreover from d have "n mod 10 = m mod 10" by (rule digit_char_inj [rotated 2]) simp_all
      ultimately show ?thesis by (metis div_mult_mod_eq)
    qed
  qed
qed

text \<open>
  C7: \<open>get_answers\<close> shows one text input per question, in order, and returns as many
  answers as questions; the answer at position \<open>i\<close> is the value of the widget with key
  \<open>answer_i\<close>, and different positions have different keys.
\<close>

theorem answers_aligned_with_questions:
  "\<exists>answers.
     get_answers w questions s =
       (Inr answers,
        s\<lparr>trace := trace s @
           map (\<lambda>i. Text_input (questions ! i) (''answer_'' @ str_nat i)) [0..<length questions]\<rparr>) \<and>
     length answers = length questions \<and>
     (\<forall>i < length questions. answers ! i = text_value w (''answer_'' @ str_nat i)) \<and>
     (\<forall>i j. ''answer_'' @ str_nat i = ''answer_'' @ str_nat j \<longrightarrow> i = j)"
  by (simp add: get_answers_run str_nat_inj)

theorem answers_aligned_with_questions_witness:
  "get_answers (sample_world sample_plan_text ''Yes.'' sample_more_text) [''1. Why?'', ''2. For whom?'']
     (new_page empty_session) =
     (Inr [''fun'', ''me''],
      \<lparr>session = empty_session,
       trace = [Text_input ''1. Why?'' ''answer_0'', Text_input ''2. For whom?'' ''answer_1'']\<rparr>)"
proof -
  have n: "str_nat 0 = ''0''" "str_nat 1 = ''1''" by code_simp+
  have u: "[0..<2] = [0, Suc 0]" by (simp add: upt_rec)
  from answers_aligned_with_questions
    [of "sample_world sample_plan_text ''Yes.'' sample_more_text" "[''1. Why?'', ''2. For whom?'']"
        "new_page empty_session"]
  obtain answers where
    r: "get_answers (sample_world sample_plan_text ''Yes.'' sample_more_text) [''1. Why?'', ''2. For whom?'']
         (new_page empty_session) =
       (Inr answers, (new_page empty_session)\<lparr>trace := trace (new_page empty_session) @
           map (\<lambda>i. Text_input ([''1. Why?'', ''2. For whom?''] ! i) (''answer_'' @ str_nat i))
             [0..<length [''1. Why?'', ''2. For whom?'']]\<rparr>)"
    and l: "length answers = length [''1. Why?'', ''2. For whom?'']"
    and a: "\<forall>i < length [''1. Why?'', ''2. For whom?'']. answers ! i =
          text_value (sample_world sample_plan_text ''Yes.'' sample_more_text) (''answer_'' @ str_nat i)"
    by blast
  from a have "answers ! 0 = ''fun''" "answers ! 1 = ''me''"
    using n by (simp_all add: sample_world_def sample_text_value_def)
  with l have "answers = [''fun'', ''me'']"
    by (cases answers; cases "tl answers"; cases "tl (tl answers)") auto
  with r show ?thesis using n by (simp add: new_page_def u)
qed

section \<open>The early returns of main\<close>

lemma get_topic_run:
  "get_topic w s = (Inr (strip (text_value w ''topic'')),
                    s\<lparr>trace := trace s @ [Text_input ''Research topic:'' ''topic'']\<rparr>)"
  by (simp add: get_topic_def)

lemma andthen_get_topic [simp]:
  "andthen (get_topic w) f s =
     f (strip (text_value w ''topic'')) (s\<lparr>trace := trace s @ [Text_input ''Research topic:'' ''topic'']\<rparr>)"
  by (simp add: andthen_Inr [OF get_topic_run])

lemma andthen_get_answers [simp]:
  "andthen (get_answers w qs) f s =
     f (map (\<lambda>j. text_value w (''answer_'' @ str_nat j)) [0..<length qs])
       (s\<lparr>trace := trace s @ map (\<lambda>j. Text_input (qs ! j) (''answer_'' @ str_nat j)) [0..<length qs]\<rparr>)"
  by (simp add: andthen_Inr [OF get_answers_run])

lemma main_of_exit:
  "main_steps_1_3 w s = (Inl x, s') \<Longrightarrow>
   main w s = ((case x of Raised e \<Rightarrow> Inl e | Returned \<Rightarrow> Inr ()), s')"
  by (simp add: main_def finish_def main_body_def andthen_def split: exit.splits)

lemma main_of_steps_1_3:
  "main_steps_1_3 w s = (Inr (c, topic, answers), s3) \<Longrightarrow>
   main w s = finish (andthen (main_steps_4_5 w c topic answers)
                       (\<lambda>(cid, goal, col). main_evaluate w c cid goal col) s3)"
  by (simp add: main_def main_body_def andthen_def)

lemma main_of_steps_4_5:
  "main_steps_1_3 w s = (Inr (c, topic, answers), s3) \<Longrightarrow>
   main_steps_4_5 w c topic answers s3 = (Inr (cid, goal, col), s5) \<Longrightarrow>
   main w s = finish (main_evaluate w c cid goal col s5)"
  by (simp add: main_def main_body_def andthen_def)

lemma main_of_steps_4_5_exit:
  "main_steps_1_3 w s = (Inr (c, topic, answers), s3) \<Longrightarrow>
   main_steps_4_5 w c topic answers s3 = (Inl x, s5) \<Longrightarrow>
   main w s = ((case x of Raised e \<Rightarrow> Inl e | Returned \<Rightarrow> Inr ()), s5)"
  by (simp add: main_def finish_def main_body_def andthen_def split: exit.splits)

lemma steps_1_3_missing_key:
  assumes "getenv w ''OPENAI_API_KEY'' = None \<or> getenv w ''OPENAI_API_KEY'' = Some []"
  shows "main_steps_1_3 w s =
           (Inl (Raised StopException), s\<lparr>trace := trace s @
             [Title ''Deep Research Clone'',
              Write_text ''AI-powered research assistant with web search.'',
              Error_msg ''OPENAI_API_KEY not set. Please set it in your environment or .env file.'']\<rparr>)"
  by (simp add: main_steps_1_3_def andthen_Inl [OF get_openai_client_missing [OF assms]])

lemma steps_1_3_empty_topic:
  assumes "getenv w ''OPENAI_API_KEY'' = Some k" "k \<noteq> []" "strip (text_value w ''topic'') = []"
  shows "main_steps_1_3 w s =
           (Inl Returned, s\<lparr>trace := trace s @
             [Title ''Deep Research Clone'',
              Write_text ''AI-powered research assistant with web search.'',
              Text_input ''Research topic:'' ''topic'',
              Info ''Enter a research topic to begin.'']\<rparr>)"
  using assms(3)
  by (simp add: main_steps_1_3_def andthen_Inr [OF get_openai_client_present [OF assms(1,2)]])

lemma steps_1_3_topic:
  assumes "getenv w ''OPENAI_API_KEY'' = Some k" "k \<noteq> []" "strip (text_value w ''topic'') \<noteq> []"
  shows "main_steps_1_3 w s =
     andthen (main_clarify w (OpenAI k) (strip (text_value w ''topic''))) (\<lambda>questions.
     andthen (get_answers w questions) (\<lambda>answers.
     if \<not> list_all (\<lambda>a. a \<noteq> []) answers
     then andthen (emit (Info ''Please answer all clarifying questions.'')) (\<lambda>_. return_early)
     else return (OpenAI k, strip (text_value w ''topic''), answers)))
       (s\<lparr>trace := trace s @
             [Title ''Deep Research Clone'',
              Write_text ''AI-powered research assistant with web search.'',
              Text_input ''Research topic:'' ''topic'']\<rparr>)"
  using assms(3)
  by (simp add: main_steps_1_3_def andthen_Inr [OF get_openai_client_present [OF assms(1,2)]])

lemma main_clarify_calls:
  assumes "main_clarify w (OpenAI k) topic s = (r, s')"
  shows "api_calls (trace s') = api_calls (trace s) \<or>
         api_calls (trace s') = api_calls (trace s) @ [clarify_request topic]"
  using assms
  by (auto simp: main_clarify_def fetch_questions_def andthen_def get_clarifying_questions_unfold
        api_calls_append split: option.splits if_splits sum.splits)

lemma main_empty_topic:
  assumes "getenv w ''OPENAI_API_KEY'' = Some k" "k \<noteq> []" "strip (text_value w ''topic'') = []"
  shows "main w s =
           (Inr (), s\<lparr>trace := trace s @
             [Title ''Deep Research Clone'',
              Write_text ''AI-powered research assistant with web search.'',
              Text_input ''Research topic:'' ''topic'',
              Info ''Enter a research topic to begin.'']\<rparr>)"
  by (simp add: main_of_exit [OF steps_1_3_empty_topic [OF assms]])

lemma main_missing_key:
  assumes "getenv w ''OPENAI_API_KEY'' = None \<or> getenv w ''OPENAI_API_KEY'' = Some []"
  shows "main w s =
           (Inl StopException, s\<lparr>trace := trace s @
             [Title ''Deep Research Clone'',
              Write_text ''AI-powered research assistant with web search.'',
              Error_msg ''OPENAI_API_KEY not set. Please set it in your environment or .env file.'']\<rparr>)"
  by (simp add: main_of_exit [OF steps_1_3_missing_key [OF assms]])

lemma key_cases:
  obtains "getenv w ''OPENAI_API_KEY'' = None \<or> getenv w ''OPENAI_API_KEY'' = Some []"
  | k where "getenv w ''OPENAI_API_KEY'' = Some k" "k \<noteq> []"
  by (cases "getenv w ''OPENAI_API_KEY''") auto

lemma main_empty_topic_no_calls:
  assumes "strip (text_value w ''topic'') = []"
  shows "api_calls (trace (snd (main w s))) = api_calls (trace s)"
proof (cases w rule: key_cases)
  case 1
  then show ?thesis by (simp add: main_missing_key api_calls_append)
next
  case (2 k)
  then show ?thesis using assms by (simp add: main_empty_topic api_calls_append)
qed

text \<open>
  C10: for every input \<open>get_topic\<close> shows the text input and returns its value stripped:
  the value is whitespace, the result, whitespace, and a result that is not empty begins
  and ends with a character that is no whitespace; the result is empty exactly for an
  input of whitespace only. For such an input the run is the run on an empty input, no
  request goes to the service, and with a key set \<open>main\<close> shows the prompt and returns.
\<close>

theorem whitespace_topic_is_empty_topic:
  "get_topic w s =
     (Inr (strip (text_value w ''topic'')),
      s\<lparr>trace := trace s @ [Text_input ''Research topic:'' ''topic'']\<rparr>)
 \<and> (\<forall>raw. \<exists>pre post. raw = pre @ strip raw @ post \<and> list_all isspace pre \<and> list_all isspace post
        \<and> (strip raw \<noteq> [] \<longrightarrow> \<not> isspace (hd (strip raw)) \<and> \<not> isspace (last (strip raw))))
 \<and> (\<forall>raw. strip raw = [] \<longleftrightarrow> list_all isspace raw)
 \<and> (list_all isspace (text_value w ''topic'') \<longrightarrow>
       get_topic w s = (Inr [], s\<lparr>trace := trace s @ [Text_input ''Research topic:'' ''topic'']\<rparr>)
     \<and> main w s = main (w\<lparr>text_value := (text_value w)(''topic'' := [])\<rparr>) s
     \<and> api_calls (trace (snd (main w s))) = api_calls (trace s)
     \<and> (\<forall>k. getenv w ''OPENAI_API_KEY'' = Some k \<and> k \<noteq> [] \<longrightarrow>
           main w s =
             (Inr (), s\<lparr>trace := trace s @
                [Title ''Deep Research Clone'',
                 Write_text ''AI-powered research assistant with web search.'',
                 Text_input ''Research topic:'' ''topic'',
                 Info ''Enter a research topic to begin.'']\<rparr>)))"
proof -
  let ?w' = "w\<lparr>text_value := (text_value w)(''topic'' := [])\<rparr>"
  have g: "get_topic w s =
     (Inr (strip (text_value w ''topic'')),
      s\<lparr>trace := trace s @ [Text_input ''Research topic:'' ''topic'']\<rparr>)"
    by (rule get_topic_run)
  have 5: "\<forall>raw. \<exists>pre post. raw = pre @ strip raw @ post \<and> list_all isspace pre \<and> list_all isspace post
              \<and> (strip raw \<noteq> [] \<longrightarrow> \<not> isspace (hd (strip raw)) \<and> \<not> isspace (last (strip raw)))"
  proof
    fix raw
    show "\<exists>pre post. raw = pre @ strip raw @ post \<and> list_all isspace pre \<and> list_all isspace post
              \<and> (strip raw \<noteq> [] \<longrightarrow> \<not> isspace (hd (strip raw)) \<and> \<not> isspace (last (strip raw)))"
      using strip_decomp [of raw] strip_ends [of raw] by blast
  qed
  have 6: "\<forall>raw. strip raw = [] \<longleftrightarrow> list_all isspace raw"
    by (simp add: strip_eq_Nil_iff)
  have c: "list_all isspace (text_value w ''topic'') \<longrightarrow>
       get_topic w s = (Inr [], s\<lparr>trace := trace s @ [Text_input ''Research topic:'' ''topic'']\<rparr>)
     \<and> main w s = main ?w' s
     \<and> api_calls (trace (snd (main w s))) = api_calls (trace s)
     \<and> (\<forall>k. getenv w ''OPENAI_API_KEY'' = Some k \<and> k \<noteq> [] \<longrightarrow>
           main w s =
             (Inr (), s\<lparr>trace := trace s @
                [Title ''Deep Research Clone'',
                 Write_text ''AI-powered research assistant with web search.'',
                 Text_input ''Research topic:'' ''topic'',
                 Info ''Enter a research topic to begin.'']\<rparr>))"
  proof
    assume a: "list_all isspace (text_value w ''topic'')"
    have e: "strip (text_value w ''topic'') = []" using a by (simp add: strip_eq_Nil_iff)
    have e': "strip (text_value ?w' ''topic'') = []" by (simp add: strip_def)
    have 1: "get_topic w s = (Inr [], s\<lparr>trace := trace s @ [Text_input ''Research topic:'' ''topic'']\<rparr>)"
      by (simp add: get_topic_run e)
    have 2: "main w s = main ?w' s"
    proof (cases w rule: key_cases)
      case 1
      then have "getenv ?w' ''OPENAI_API_KEY'' = None \<or> getenv ?w' ''OPENAI_API_KEY'' = Some []" by simp
      then show ?thesis using 1 by (simp add: main_missing_key)
    next
      case (2 k)
      then have "getenv ?w' ''OPENAI_API_KEY'' = Some k" by simp
      then show ?thesis using 2 e e' by (simp add: main_empty_topic)
    qed
    have 3: "api_calls (trace (snd (main w s))) = api_calls (trace s)"
      using e by (rule main_empty_topic_no_calls)
    have 4: "\<forall>k. getenv w ''OPENAI_API_KEY'' = Some k \<and> k \<noteq> [] \<longrightarrow>
             main w s =
               (Inr (), s\<lparr>trace := trace s @
                  [Title ''Deep Research Clone'',
                   Write_text ''AI-powered research assistant with web search.'',
                   Text_input ''Research topic:'' ''topic'',
                   Info ''Enter a research topic to begin.'']\<rparr>)"
      using e by (simp add: main_empty_topic)
    show "get_topic w s = (Inr [], s\<lparr>trace := trace s @ [Text_input ''Research topic:'' ''topic'']\<rparr>)
     \<and> main w s = main ?w' s
     \<and> api_calls (trace (snd (main w s))) = api_calls (trace s)
     \<and> (\<forall>k. getenv w ''OPENAI_API_KEY'' = Some k \<and> k \<noteq> [] \<longrightarrow>
           main w s =
             (Inr (), s\<lparr>trace := trace s @
                [Title ''Deep Research Clone'',
                 Write_text ''AI-powered research assistant with web search.'',
                 Text_input ''Research topic:'' ''topic'',
                 Info ''Enter a research topic to begin.'']\<rparr>))"
      apply (intro conjI)
         apply (rule 1)
        apply (rule 2)
       apply (rule 3)
      apply (rule 4)
      done
  qed
  show ?thesis
    apply (intro conjI)
       apply (rule g)
      apply (rule 5)
     apply (rule 6)
    apply (rule c)
    done
qed

lemma api_calls_text_inputs: "api_calls (map (\<lambda>i. Text_input (f i) (g i)) xs) = []"
  by (induction xs) simp_all

lemma main_unanswered:
  assumes k: "getenv w ''OPENAI_API_KEY'' = Some k" "k \<noteq> []"
    and t: "strip (text_value w ''topic'') \<noteq> []"
    and c: "main_clarify w (OpenAI k) (strip (text_value w ''topic''))
        (s\<lparr>trace := trace s @
              [Title ''Deep Research Clone'',
               Write_text ''AI-powered research assistant with web search.'',
               Text_input ''Research topic:'' ''topic'']\<rparr>) = (Inr questions, s2)"
    and a: "\<exists>i < length questions. text_value w (''answer_'' @ str_nat i) = []"
  shows "main w s =
          (Inr (), s2\<lparr>trace := trace s2 @
             map (\<lambda>i. Text_input (questions ! i) (''answer_'' @ str_nat i)) [0..<length questions] @
             [Info ''Please answer all clarifying questions.'']\<rparr>)"
    and "set (api_calls (trace (snd (main w s)))) \<subseteq>
          set (api_calls (trace s)) \<union> {clarify_request (strip (text_value w ''topic''))}"
proof -
  let ?topic = "strip (text_value w ''topic'')"
  let ?s1 = "s\<lparr>trace := trace s @
              [Title ''Deep Research Clone'',
               Write_text ''AI-powered research assistant with web search.'',
               Text_input ''Research topic:'' ''topic'']\<rparr>"
  from a have "\<not> list_all (\<lambda>a. a \<noteq> [])
      (map (\<lambda>j. text_value w (''answer_'' @ str_nat j)) [0..<length questions])"
    by (auto simp: list_all_iff)
  then have "main_steps_1_3 w s =
      (Inl Returned, s2\<lparr>trace := trace s2 @
             map (\<lambda>i. Text_input (questions ! i) (''answer_'' @ str_nat i)) [0..<length questions] @
             [Info ''Please answer all clarifying questions.'']\<rparr>)"
    using k t by (simp add: steps_1_3_topic
        andthen_Inr [where m = "main_clarify w (OpenAI k) ?topic" and s = ?s1, OF c])
  then show m: "main w s =
      (Inr (), s2\<lparr>trace := trace s2 @
             map (\<lambda>i. Text_input (questions ! i) (''answer_'' @ str_nat i)) [0..<length questions] @
             [Info ''Please answer all clarifying questions.'']\<rparr>)"
    by (simp add: main_of_exit)
  from main_clarify_calls [OF c]
  have "set (api_calls (trace s2)) \<subseteq> set (api_calls (trace s)) \<union> {clarify_request ?topic}"
    by (auto simp: api_calls_append)
  then show "set (api_calls (trace (snd (main w s)))) \<subseteq>
          set (api_calls (trace s)) \<union> {clarify_request ?topic}"
    by (simp add: m api_calls_append api_calls_text_inputs)
qed

text \<open>
  C3: with an empty topic (after stripping) no request goes to the service, and, the key
  being set, \<open>main\<close> shows the prompt and returns. With a topic, once the questions are
  there and some answer is empty, \<open>main\<close> shows the message and returns: the only request
  of the run that can have gone out is the one for the questions.
\<close>

theorem empty_inputs_return_early:
  "(strip (text_value w ''topic'') = [] \<longrightarrow>
      api_calls (trace (snd (main w s))) = api_calls (trace s) \<and>
      (\<forall>k. getenv w ''OPENAI_API_KEY'' = Some k \<and> k \<noteq> [] \<longrightarrow>
         main w s =
           (Inr (), s\<lparr>trace := trace s @
              [Title ''Deep Research Clone'',
               Write_text ''AI-powered research assistant with web search.'',
               Text_input ''Research topic:'' ''topic'',
               Info ''Enter a research topic to begin.'']\<rparr>)))
 \<and> (\<forall>k questions s2.
      getenv w ''OPENAI_API_KEY'' = Some k \<and> k \<noteq> [] \<and>
      strip (text_value w ''topic'') \<noteq> [] \<and>
      main_clarify w (OpenAI k) (strip (text_value w ''topic''))
        (s\<lparr>trace := trace s @
              [Title ''Deep Research Clone'',
               Write_text ''AI-powered research assistant with web search.'',
               Text_input ''Research topic:'' ''topic'']\<rparr>) = (Inr questions, s2) \<and>
      (\<exists>i < length questions. text_value w (''answer_'' @ str_nat i) = []) \<longrightarrow>
        main w s =
          (Inr (), s2\<lparr>trace := trace s2 @
             map (\<lambda>i. Text_input (questions ! i) (''answer_'' @ str_nat i)) [0..<length questions] @
             [Info ''Please answer all clarifying questions.'']\<rparr>) \<and>
        set (api_calls (trace (snd (main w s)))) \<subseteq>
          set (api_calls (trace s)) \<union> {clarify_request (strip (text_value w ''topic''))})"
proof -
  have 1: "strip (text_value w ''topic'') = [] \<Longrightarrow>
      api_calls (trace (snd (main w s))) = api_calls (trace s)"
    by (rule main_empty_topic_no_calls)
  have 2: "strip (text_value w ''topic'') = [] \<Longrightarrow>
      getenv w ''OPENAI_API_KEY'' = Some k \<Longrightarrow> k \<noteq> [] \<Longrightarrow>
         main w s =
           (Inr (), s\<lparr>trace := trace s @
              [Title ''Deep Research Clone'',
               Write_text ''AI-powered research assistant with web search.'',
               Text_input ''Research topic:'' ''topic'',
               Info ''Enter a research topic to begin.'']\<rparr>)" for k
    by (simp add: main_empty_topic)
  show ?thesis
    using 1 2 main_unanswered [of w _ s] by blast
qed

lemma sample_key: "getenv (sample_world p r m) ''OPENAI_API_KEY'' = Some ''sk''"
  by (simp add: sample_world_def)

lemma sample_key_upd [simp]:
  "getenv ((sample_world p r m)\<lparr>text_value := tv\<rparr>) ''OPENAI_API_KEY'' = Some ''sk''"
  by (simp add: sample_world_def)

lemma strip_cats: "strip '' cats '' = ''cats''" "strip ''cats'' = ''cats''"
  by (simp_all add: strip_def isspace_def)

lemma str_nat_small: "str_nat 0 = ''0''" "str_nat 1 = ''1''" "str_nat (Suc 0) = ''1''"
  by code_simp+

lemma upt_2: "[0..<2] = [0, Suc 0]"
  by (simp add: upt_rec)

lemma sample_main_clarify:
  "service w = sample_service p r m \<Longrightarrow>
   main_clarify w (OpenAI k) topic \<lparr>session = empty_session, trace = tr\<rparr> =
     (Inr [''1. Why?'', ''2. For whom?''],
      \<lparr>session = empty_session\<lparr>clarify := Some [''1. Why?'', ''2. For whom?''], last_topic := Some topic\<rparr>,
       trace = tr @ [Api_call (clarify_request topic)]\<rparr>)"
  by (simp add: main_clarify_def fetch_questions_def get_clarifying_questions_unfold andthen_def
      empty_session_def sample_service_def clarify_request_def
      output_text_text_response split_sample_questions)

theorem empty_inputs_return_early_witness:
  "main ((sample_world sample_plan_text ''Yes.'' sample_more_text)\<lparr>text_value := (\<lambda>key. [])\<rparr>)
     (new_page empty_session) =
     (Inr (), \<lparr>session = empty_session, trace =
        [Title ''Deep Research Clone'',
         Write_text ''AI-powered research assistant with web search.'',
         Text_input ''Research topic:'' ''topic'',
         Info ''Enter a research topic to begin.'']\<rparr>)
   \<and> main ((sample_world sample_plan_text ''Yes.'' sample_more_text)
           \<lparr>text_value := (\<lambda>key. if key = ''topic'' then ''cats'' else [])\<rparr>)
     (new_page empty_session) =
     (Inr (), \<lparr>session = empty_session\<lparr>clarify := Some [''1. Why?'', ''2. For whom?''],
                                         last_topic := Some ''cats''\<rparr>,
               trace =
        [Title ''Deep Research Clone'',
         Write_text ''AI-powered research assistant with web search.'',
         Text_input ''Research topic:'' ''topic'',
         Api_call (clarify_request ''cats''),
         Text_input ''1. Why?'' ''answer_0'',
         Text_input ''2. For whom?'' ''answer_1'',
         Info ''Please answer all clarifying questions.'']\<rparr>)"
proof -
  let ?a = "(sample_world sample_plan_text ''Yes.'' sample_more_text)\<lparr>text_value := (\<lambda>key. [])\<rparr>"
  let ?b = "(sample_world sample_plan_text ''Yes.'' sample_more_text)
           \<lparr>text_value := (\<lambda>key. if key = ''topic'' then ''cats'' else [])\<rparr>"
  have sb: "service ?b = sample_service sample_plan_text ''Yes.'' sample_more_text"
    by (simp add: sample_world_def)
  have ta: "strip (text_value ?a ''topic'') = []" by (simp add: strip_def)
  have tb: "strip (text_value ?b ''topic'') = ''cats''" by (simp add: strip_cats)
  note thm_a = empty_inputs_return_early [of ?a "new_page empty_session", THEN conjunct1, rule_format, OF ta,
       THEN conjunct2, rule_format, of "''sk''"]
  have a: "main ?a (new_page empty_session) =
     (Inr (), \<lparr>session = empty_session, trace =
        [Title ''Deep Research Clone'',
         Write_text ''AI-powered research assistant with web search.'',
         Text_input ''Research topic:'' ''topic'',
         Info ''Enter a research topic to begin.'']\<rparr>)"
    using thm_a by (simp add: new_page_def sample_key)
  have ex: "\<exists>i::nat. i < Suc (Suc 0)" by auto
  note thm_b = empty_inputs_return_early [of ?b "new_page empty_session", THEN conjunct2, rule_format,
       of "''sk''" "[''1. Why?'', ''2. For whom?'']"
        "\<lparr>session = empty_session\<lparr>clarify := Some [''1. Why?'', ''2. For whom?''],
                                         last_topic := Some ''cats''\<rparr>,
               trace =
        [Title ''Deep Research Clone'',
         Write_text ''AI-powered research assistant with web search.'',
         Text_input ''Research topic:'' ''topic'',
         Api_call (clarify_request ''cats'')]\<rparr>", THEN conjunct1]
  have b: "main ?b (new_page empty_session) =
     (Inr (), \<lparr>session = empty_session\<lparr>clarify := Some [''1. Why?'', ''2. For whom?''],
                                         last_topic := Some ''cats''\<rparr>,
               trace =
        [Title ''Deep Research Clone'',
         Write_text ''AI-powered research assistant with web search.'',
         Text_input ''Research topic:'' ''topic'',
         Api_call (clarify_request ''cats''),
         Text_input ''1. Why?'' ''answer_0'',
         Text_input ''2. For whom?'' ''answer_1'',
         Info ''Please answer all clarifying questions.'']\<rparr>)"
    using thm_b ex by (simp add: new_page_def sample_key strip_cats sample_main_clarify [OF sb] str_nat_small upt_2)
  from a b show ?thesis by simp
qed

text \<open>
  C4: with \<open>OPENAI_API_KEY\<close> unset or empty, \<open>get_openai_client\<close> shows the error and
  stops the run: it returns no client, \<open>main\<close> ends with the stop after its two header
  lines and the error, and no request goes to the service.
\<close>

theorem missing_key_halts:
  assumes "getenv w ''OPENAI_API_KEY'' = None \<or> getenv w ''OPENAI_API_KEY'' = Some []"
  shows "get_openai_client w s =
           (Inl (Raised StopException), s\<lparr>trace := trace s @
             [Error_msg ''OPENAI_API_KEY not set. Please set it in your environment or .env file.'']\<rparr>)
       \<and> main w s =
           (Inl StopException, s\<lparr>trace := trace s @
             [Title ''Deep Research Clone'',
              Write_text ''AI-powered research assistant with web search.'',
              Error_msg ''OPENAI_API_KEY not set. Please set it in your environment or .env file.'']\<rparr>)
       \<and> api_calls (trace (snd (main w s))) = api_calls (trace s)"
  using get_openai_client_missing [OF assms, of s] main_missing_key [OF assms, of s]
  by (simp add: api_calls_append)

theorem missing_key_halts_witness:
  "getenv ((sample_world sample_plan_text ''Yes.'' sample_more_text)\<lparr>getenv := (\<lambda>name. Some [])\<rparr>)
     ''OPENAI_API_KEY'' = Some []
   \<and> main ((sample_world sample_plan_text ''Yes.'' sample_more_text)\<lparr>getenv := (\<lambda>name. Some [])\<rparr>)
       (new_page empty_session) =
     (Inl StopException, \<lparr>session = empty_session, trace =
        [Title ''Deep Research Clone'',
         Write_text ''AI-powered research assistant with web search.'',
         Error_msg ''OPENAI_API_KEY not set. Please set it in your environment or .env file.'']\<rparr>)"
  using missing_key_halts
    [of "(sample_world sample_plan_text ''Yes.'' sample_more_text)\<lparr>getenv := (\<lambda>name. Some [])\<rparr>"
        "new_page empty_session"]
  by (simp add: new_page_def)

section \<open>The research loop\<close>

lemma run_search_unfold:
  "run_search w (OpenAI k) q s =
     (case service w k (trace s) (search_request q) of
        Inl e \<Rightarrow> (Inl (Raised e), s\<lparr>trace := trace s @ [Api_call (search_request q)]\<rparr>)
      | Inr resp \<Rightarrow>
          (case output_at resp 0 of
             Inl e \<Rightarrow> (Inl (Raised e), s\<lparr>trace := trace s @ [Api_call (search_request q)]\<rparr>)
           | Inr first \<Rightarrow>
               (case output_text resp 1 of
                  Inl e \<Rightarrow> (Inl (Raised e), s\<lparr>trace := trace s @ [Api_call (search_request q)]\<rparr>)
                | Inr text \<Rightarrow>
                    (Inr \<lparr>query = q, resp_id = item_id first, research_output = text\<rparr>,
                     s\<lparr>trace := trace s @ [Api_call (search_request q)]\<rparr>))))"
  by (simp add: run_search_def andthen_def responses_create_def split: sum.splits)

lemma run_search_effect:
  assumes "run_search w (OpenAI k) q s = (r, s')"
  shows "s' = s\<lparr>trace := trace s @ [Api_call (search_request q)]\<rparr> \<and>
         (\<forall>result. r = Inr result \<longrightarrow> query result = q)"
  using assms by (auto simp: run_search_unfold split: sum.splits)

lemma research_loop_skip:
  "list_ex (\<lambda>item. py_eq (query item) q) col \<Longrightarrow>
   research_loop w c qtr (q # qs) col s = research_loop w c qtr qs col s"
  by simp

lemma research_loop_search:
  "\<not> list_ex (\<lambda>item. py_eq (query item) q) col \<Longrightarrow>
   research_loop w (OpenAI k) qtr (q # qs) col s =
     (case run_search w (OpenAI k) q (s\<lparr>trace := trace s @ [Spinner [Lit ''Searching: '', Str_of q]]\<rparr>) of
        (Inl e, s') \<Rightarrow> (Inl e, s')
      | (Inr result, s') \<Rightarrow>
          research_loop w (OpenAI k) qtr qs (col @ [result])
            (s'\<lparr>session := (session s')\<lparr>collected := Some (col @ [result]), queries := Some qtr\<rparr>\<rparr>))"
  by (simp add: andthen_def split: prod.splits sum.splits)

lemma fresh_queries_not_seen:
  "q \<in> set (fresh_queries seen qs) \<Longrightarrow> \<not> list_ex (\<lambda>x. py_eq x q) seen"
proof (induction qs arbitrary: seen)
  case Nil
  then show ?case by simp
next
  case (Cons a qs)
  show ?case
  proof (cases "list_ex (\<lambda>x. py_eq x a) seen")
    case True
    then show ?thesis using Cons by simp
  next
    case False
    with Cons.prems consider "q = a" | "q \<in> set (fresh_queries (seen @ [a]) qs)" by auto
    then show ?thesis
    proof cases
      case 1
      then show ?thesis using False by simp
    next
      case 2
      then have "\<not> list_ex (\<lambda>x. py_eq x q) (seen @ [a])" by (rule Cons.IH)
      then show ?thesis by simp
    qed
  qed
qed

lemma fresh_queries_sub: "set (fresh_queries seen qs) \<subseteq> set qs"
  by (induction qs arbitrary: seen) auto

lemma list_ex_query: "list_ex (\<lambda>item. py_eq (query item) q) col = list_ex (\<lambda>x. py_eq x q) (map query col)"
  by (simp add: list_ex_iff)

text \<open>What the loop does, in any outcome.\<close>

lemma research_loop_effect:
  assumes "research_loop w (OpenAI k) qtr qs col s = (r, s')"
  shows "\<exists>searched. prefix searched (fresh_queries (map query col) qs) \<and>
           api_calls (trace s') = api_calls (trace s) @ map search_request searched \<and>
           (\<forall>col'. r = Inr col' \<longrightarrow>
              searched = fresh_queries (map query col) qs \<and>
              take (length col) col' = col \<and>
              map query col' = map query col @ searched)"
  using assms
proof (induction qs arbitrary: col s)
  case Nil
  then show ?case by auto
next
  case (Cons q qs)
  show ?case
  proof (cases "list_ex (\<lambda>item. py_eq (query item) q) col")
    case True
    then have "research_loop w (OpenAI k) qtr qs col s = (r, s')" using Cons.prems by simp
    from Cons.IH [OF this] show ?thesis using True by (simp add: list_ex_query)
  next
    case False
    let ?s1 = "s\<lparr>trace := trace s @ [Spinner [Lit ''Searching: '', Str_of q]]\<rparr>"
    obtain r1 s2 where rs: "run_search w (OpenAI k) q ?s1 = (r1, s2)" by (cases "run_search w (OpenAI k) q ?s1")
    from run_search_effect [OF rs]
    have s2: "s2 = ?s1\<lparr>trace := trace ?s1 @ [Api_call (search_request q)]\<rparr>"
      and qr: "\<forall>result. r1 = Inr result \<longrightarrow> query result = q" by simp_all
    from Cons.prems have step:
      "(case run_search w (OpenAI k) q ?s1 of
          (Inl e, s') \<Rightarrow> (Inl e, s')
        | (Inr result, s') \<Rightarrow>
            research_loop w (OpenAI k) qtr qs (col @ [result])
              (s'\<lparr>session := (session s')\<lparr>collected := Some (col @ [result]), queries := Some qtr\<rparr>\<rparr>))
       = (r, s')"
      unfolding research_loop_search [OF False] .
    have f: "fresh_queries (map query col) (q # qs) = q # fresh_queries (map query col @ [q]) qs"
      using False by (simp add: list_ex_query)
    show ?thesis
    proof (cases r1)
      case (Inl e)
      then have "r = Inl e" "s' = s2" using step rs by simp_all
      then have "api_calls (trace s') = api_calls (trace s) @ map search_request [q]"
        by (simp add: s2 api_calls_append)
      moreover have "prefix [q] (fresh_queries (map query col) (q # qs))" unfolding f by simp
      ultimately show ?thesis using \<open>r = Inl e\<close> by blast
    next
      case (Inr result)
      let ?s3 = "s2\<lparr>session := (session s2)\<lparr>collected := Some (col @ [result]), queries := Some qtr\<rparr>\<rparr>"
      have l: "research_loop w (OpenAI k) qtr qs (col @ [result]) ?s3 = (r, s')"
        using step rs Inr by simp
      have q: "query result = q" using qr Inr by simp
      from Cons.IH [OF l] obtain searched where
        p: "prefix searched (fresh_queries (map query (col @ [result])) qs)"
        and a: "api_calls (trace s') = api_calls (trace ?s3) @ map search_request searched"
        and c: "\<forall>col'. r = Inr col' \<longrightarrow>
              searched = fresh_queries (map query (col @ [result])) qs \<and>
              take (length (col @ [result])) col' = col @ [result] \<and>
              map query col' = map query (col @ [result]) @ searched"
        by blast
      have 1: "prefix (q # searched) (fresh_queries (map query col) (q # qs))"
        using p q unfolding f by simp
      have 2: "api_calls (trace s') = api_calls (trace s) @ map search_request (q # searched)"
        using a by (simp add: s2 api_calls_append)
      have 3: "\<forall>col'. r = Inr col' \<longrightarrow>
              q # searched = fresh_queries (map query col) (q # qs) \<and>
              take (length col) col' = col \<and>
              map query col' = map query col @ q # searched"
      proof (intro allI impI)
        fix col' assume "r = Inr col'"
        with c have c1: "searched = fresh_queries (map query (col @ [result])) qs"
          and c2: "take (length (col @ [result])) col' = col @ [result]"
          and c3: "map query col' = map query (col @ [result]) @ searched" by blast+
        from c2 have "take (length col) (take (length (col @ [result])) col') = take (length col) (col @ [result])"
          by simp
        then have "take (length col) col' = col" by (simp add: min_def)
        then show "q # searched = fresh_queries (map query col) (q # qs) \<and>
              take (length col) col' = col \<and>
              map query col' = map query col @ q # searched"
          using c1 c3 q unfolding f by simp
      qed
      from 1 2 3 show ?thesis by blast
    qed
  qed
qed

lemma py_eq_JStr: "py_eq x (JStr a) \<longleftrightarrow> x = JStr a"
  by (cases x) auto

lemma list_ex_py_eq_JStr: "list_ex (\<lambda>x. py_eq x (JStr a)) seen \<longleftrightarrow> JStr a \<in> set seen"
  by (auto simp: list_ex_iff py_eq_JStr)

lemma fresh_queries_strings:
  assumes "\<forall>x \<in> set qs. \<exists>a. x = JStr a"
  shows "distinct (fresh_queries seen qs) \<and> set (fresh_queries seen qs) = set qs - set seen"
  using assms
proof (induction qs arbitrary: seen)
  case Nil
  then show ?case by simp
next
  case (Cons q qs)
  then obtain a where q: "q = JStr a" by auto
  from Cons.prems have r: "\<forall>x \<in> set qs. \<exists>a. x = JStr a" by simp
  note ih = Cons.IH [OF r]
  show ?case
  proof (cases "JStr a \<in> set seen")
    case True
    then show ?thesis using ih [of seen] by (auto simp: q list_ex_py_eq_JStr)
  next
    case False
    then show ?thesis using ih [of "seen @ [JStr a]"] by (auto simp: q list_ex_py_eq_JStr)
  qed
qed

text \<open>
  C1: in the research loop a query equal to the query of an element already collected is
  passed over: the loop goes on with the same list and the same state. Whatever the
  outcome of the loop, the search requests it sent are, in order, for a prefix of the
  queries equal to none collected before them (all of them when the loop ends normally),
  each searched query is one of the list and equals no query of the list the loop
  started with, and the result is the old list followed by one element per searched
  query. For query strings these are the distinct strings of the list that are not yet
  collected.
\<close>

theorem duplicate_queries_not_searched:
  "(list_ex (\<lambda>item. py_eq (query item) q) col \<longrightarrow>
      research_loop w (OpenAI k) qtr (q # qs) col s = research_loop w (OpenAI k) qtr qs col s)
 \<and> (\<forall>r s'. research_loop w (OpenAI k) qtr qs col s = (r, s') \<longrightarrow>
      (\<exists>searched.
         prefix searched (fresh_queries (map query col) qs) \<and>
         api_calls (trace s') = api_calls (trace s) @ map search_request searched \<and>
         (\<forall>x \<in> set searched. x \<in> set qs \<and> \<not> list_ex (\<lambda>item. py_eq (query item) x) col) \<and>
         (\<forall>col'. r = Inr col' \<longrightarrow>
            searched = fresh_queries (map query col) qs \<and>
            take (length col) col' = col \<and>
            map query col' = map query col @ searched)))
 \<and> ((\<forall>x \<in> set qs. \<exists>a. x = JStr a) \<longrightarrow>
      distinct (fresh_queries (map query col) qs) \<and>
      set (fresh_queries (map query col) qs) = set qs - set (map query col))"
proof (intro conjI allI impI)
  assume "list_ex (\<lambda>item. py_eq (query item) q) col"
  then show "research_loop w (OpenAI k) qtr (q # qs) col s = research_loop w (OpenAI k) qtr qs col s"
    by (rule research_loop_skip)
next
  fix r s'
  assume "research_loop w (OpenAI k) qtr qs col s = (r, s')"
  from research_loop_effect [OF this] obtain searched where
    p: "prefix searched (fresh_queries (map query col) qs)"
    and a: "api_calls (trace s') = api_calls (trace s) @ map search_request searched"
    and c: "\<forall>col'. r = Inr col' \<longrightarrow>
            searched = fresh_queries (map query col) qs \<and>
            take (length col) col' = col \<and>
            map query col' = map query col @ searched"
    by blast
  have "\<forall>x \<in> set searched. x \<in> set qs \<and> \<not> list_ex (\<lambda>item. py_eq (query item) x) col"
  proof
    fix x assume "x \<in> set searched"
    then have x: "x \<in> set (fresh_queries (map query col) qs)" using p set_mono_prefix by blast
    then have "x \<in> set qs" using fresh_queries_sub by blast
    moreover have "\<not> list_ex (\<lambda>item. py_eq (query item) x) col"
      using fresh_queries_not_seen [OF x] by (simp add: list_ex_query)
    ultimately show "x \<in> set qs \<and> \<not> list_ex (\<lambda>item. py_eq (query item) x) col" by simp
  qed
  with p a c show "\<exists>searched.
         prefix searched (fresh_queries (map query col) qs) \<and>
         api_calls (trace s') = api_calls (trace s) @ map search_request searched \<and>
         (\<forall>x \<in> set searched. x \<in> set qs \<and> \<not> list_ex (\<lambda>item. py_eq (query item) x) col) \<and>
         (\<forall>col'. r = Inr col' \<longrightarrow>
            searched = fresh_queries (map query col) qs \<and>
            take (length col) col' = col \<and>
            map query col' = map query col @ searched)"
    by blast
next
  assume "\<forall>x \<in> set qs. \<exists>a. x = JStr a"
  from fresh_queries_strings [OF this, of "map query col"]
  show "distinct (fresh_queries (map query col) qs)"
    and "set (fresh_queries (map query col) qs) = set qs - set (map query col)"
    by simp_all
qed

section \<open>The invariant of the collected list\<close>

lemma distinct_queries_snoc:
  "distinct_queries col \<Longrightarrow> \<not> list_ex (\<lambda>item. py_eq (query item) (query r)) col \<Longrightarrow>
   distinct_queries (col @ [r])"
  by (induction col) auto

lemma distinct_queries_nth:
  "distinct_queries col \<Longrightarrow> i < j \<Longrightarrow> j < length col \<Longrightarrow>
   \<not> py_eq (query (col ! i)) (query (col ! j))"
proof (induction col arbitrary: i j)
  case Nil
  then show ?case by simp
next
  case (Cons x xs)
  show ?case
  proof (cases i)
    case 0
    with Cons.prems obtain j' where j: "j = Suc j'" "j' < length xs" by (cases j) auto
    then have "xs ! j' \<in> set xs" by simp
    with Cons.prems(1) have "\<not> py_eq (query x) (query (xs ! j'))" by (auto simp: list_ex_iff)
    then show ?thesis using 0 j by simp
  next
    case (Suc i')
    with Cons.prems obtain j' where j: "j = Suc j'" "i' < j'" "j' < length xs" by (cases j) auto
    with Cons.prems(1) Cons.IH [of i' j'] show ?thesis using Suc by simp
  qed
qed

lemma research_loop_inv:
  assumes "research_loop w (OpenAI k) qtr qs col s = (r, s')"
    and "distinct_queries col"
    and "collected (session s) = Some col \<or> (col = [] \<and> collected (session s) = None)"
  shows "\<exists>col'. distinct_queries col' \<and>
           (collected (session s') = Some col' \<or> (col' = [] \<and> collected (session s') = None)) \<and>
           (\<forall>x. r = Inr x \<longrightarrow> x = col') \<and>
           (session s')\<lparr>collected := None, queries := None\<rparr> =
             (session s)\<lparr>collected := None, queries := None\<rparr>"
  using assms
proof (induction qs arbitrary: col s)
  case Nil
  then have "r = Inr col" "s' = s" by simp_all
  then show ?case using Nil.prems(2,3) by blast
next
  case (Cons q qs)
  show ?case
  proof (cases "list_ex (\<lambda>item. py_eq (query item) q) col")
    case True
    then have "research_loop w (OpenAI k) qtr qs col s = (r, s')" using Cons.prems(1) by simp
    from Cons.IH [OF this Cons.prems(2,3)] show ?thesis .
  next
    case False
    let ?s1 = "s\<lparr>trace := trace s @ [Spinner [Lit ''Searching: '', Str_of q]]\<rparr>"
    obtain r1 s2 where rs: "run_search w (OpenAI k) q ?s1 = (r1, s2)" by (cases "run_search w (OpenAI k) q ?s1")
    from run_search_effect [OF rs]
    have s2: "s2 = ?s1\<lparr>trace := trace ?s1 @ [Api_call (search_request q)]\<rparr>"
      and qr: "\<forall>result. r1 = Inr result \<longrightarrow> query result = q" by simp_all
    from Cons.prems(1) have step:
      "(case run_search w (OpenAI k) q ?s1 of
          (Inl e, s') \<Rightarrow> (Inl e, s')
        | (Inr result, s') \<Rightarrow>
            research_loop w (OpenAI k) qtr qs (col @ [result])
              (s'\<lparr>session := (session s')\<lparr>collected := Some (col @ [result]), queries := Some qtr\<rparr>\<rparr>))
       = (r, s')"
      unfolding research_loop_search [OF False] .
    show ?thesis
    proof (cases r1)
      case (Inl e)
      then have "r = Inl e" "s' = s2" using step rs by simp_all
      then have "session s' = session s" "\<forall>x. r \<noteq> Inr x" by (simp_all add: s2)
      then show ?thesis using Cons.prems(2,3) by metis
    next
      case (Inr result)
      let ?s3 = "s2\<lparr>session := (session s2)\<lparr>collected := Some (col @ [result]), queries := Some qtr\<rparr>\<rparr>"
      have l: "research_loop w (OpenAI k) qtr qs (col @ [result]) ?s3 = (r, s')"
        using step rs Inr by simp
      have q: "query result = q" using qr Inr by simp
      have d: "distinct_queries (col @ [result])"
        using Cons.prems(2) False q by (simp add: distinct_queries_snoc)
      have c: "collected (session ?s3) = Some (col @ [result]) \<or>
               (col @ [result] = [] \<and> collected (session ?s3) = None)" by simp
      from Cons.IH [OF l d c] obtain col' where
        1: "distinct_queries col'"
        and 2: "collected (session s') = Some col' \<or> (col' = [] \<and> collected (session s') = None)"
        and 3: "\<forall>x. r = Inr x \<longrightarrow> x = col'"
        and 4: "(session s')\<lparr>collected := None, queries := None\<rparr> =
                (session ?s3)\<lparr>collected := None, queries := None\<rparr>" by blast
      from 4 have "(session s')\<lparr>collected := None, queries := None\<rparr> =
                (session s)\<lparr>collected := None, queries := None\<rparr>" by (simp add: s2)
      with 1 2 3 show ?thesis by blast
    qed
  qed
qed

lemma research_loop_append:
  "research_loop w c qtr (xs @ ys) col s =
     andthen (research_loop w c qtr xs col) (\<lambda>col'. research_loop w c qtr ys col') s"
proof (induction xs arbitrary: col s)
  case Nil
  then show ?case by (simp add: andthen_def return_def)
next
  case (Cons q xs)
  show ?case
    by (simp add: Cons.IH andthen_def split: prod.splits sum.splits)
qed

lemma main_clarify_session:
  assumes "main_clarify w (OpenAI k) topic s = (r, s')"
  shows "(session s')\<lparr>clarify := None, last_topic := None\<rparr> =
         (session s)\<lparr>clarify := None, last_topic := None\<rparr>"
  using assms
  by (auto simp: main_clarify_def fetch_questions_def andthen_def get_clarifying_questions_unfold
      split: option.splits if_splits sum.splits)

lemma get_goal_and_queries_unfold:
  "get_goal_and_queries w (OpenAI k) topic answers cid s =
     (case service w k (trace s) (goal_request topic answers cid) of
        Inl e \<Rightarrow> (Inl (Raised e), s\<lparr>trace := trace s @ [Api_call (goal_request topic answers cid)]\<rparr>)
      | Inr resp \<Rightarrow>
          (case output_text resp 0 of
             Inl e \<Rightarrow> (Inl (Raised e), s\<lparr>trace := trace s @ [Api_call (goal_request topic answers cid)]\<rparr>)
           | Inr text \<Rightarrow>
               (case loads w text of
                  None \<Rightarrow> (Inl (Raised JSONDecodeError),
                            s\<lparr>trace := trace s @ [Api_call (goal_request topic answers cid)]\<rparr>)
                | Some plan \<Rightarrow> (Inr (plan, response_id resp),
                            s\<lparr>trace := trace s @ [Api_call (goal_request topic answers cid)]\<rparr>))))"
  by (simp add: get_goal_and_queries_def andthen_def responses_create_def json_loads_def
      split: sum.splits option.splits)

lemma main_plan_session:
  assumes "main_plan w (OpenAI k) topic answers s = (r, s')"
  shows "(session s')\<lparr>goal_plan := None, clarify_id := None, last_answers := None\<rparr> =
         (session s)\<lparr>goal_plan := None, clarify_id := None, last_answers := None\<rparr>"
  using assms
  by (auto simp: main_plan_def fetch_plan_def andthen_def get_goal_and_queries_unfold
      split: option.splits if_splits sum.splits)

lemma collected_frame_clarify:
  "(ss' :: session_state)\<lparr>clarify := None, last_topic := None\<rparr> = ss\<lparr>clarify := None, last_topic := None\<rparr>
   \<Longrightarrow> collected ss' = collected ss"
  by (drule arg_cong [where f = collected]) simp

lemma collected_frame_plan:
  "(ss' :: session_state)\<lparr>goal_plan := None, clarify_id := None, last_answers := None\<rparr> =
     ss\<lparr>goal_plan := None, clarify_id := None, last_answers := None\<rparr>
   \<Longrightarrow> collected ss' = collected ss"
  by (drule arg_cong [where f = collected]) simp

lemma steps_1_3_session:
  assumes "main_steps_1_3 w s = (r, s')"
  shows "(session s')\<lparr>clarify := None, last_topic := None\<rparr> =
         (session s)\<lparr>clarify := None, last_topic := None\<rparr>"
proof (cases w rule: key_cases)
  case 1
  then show ?thesis using assms by (auto simp: steps_1_3_missing_key)
next
  case (2 k)
  show ?thesis
  proof (cases "strip (text_value w ''topic'') = []")
    case True
    then show ?thesis using assms 2 by (auto simp: steps_1_3_empty_topic)
  next
    case False
    let ?s1 = "s\<lparr>trace := trace s @
             [Title ''Deep Research Clone'',
              Write_text ''AI-powered research assistant with web search.'',
              Text_input ''Research topic:'' ''topic'']\<rparr>"
    obtain r1 s2 where c: "main_clarify w (OpenAI k) (strip (text_value w ''topic'')) ?s1 = (r1, s2)"
      by (cases "main_clarify w (OpenAI k) (strip (text_value w ''topic'')) ?s1")
    from main_clarify_session [OF c]
    have f: "(session s2)\<lparr>clarify := None, last_topic := None\<rparr> =
             (session s)\<lparr>clarify := None, last_topic := None\<rparr>" by simp
    from assms have "session s' = session s2"
      unfolding steps_1_3_topic [OF 2 False]
      by (cases r1) (auto simp: andthen_def c get_answers_run split: if_splits)
    with f show ?thesis by simp
  qed
qed

lemma main_collect_inv:
  assumes m: "main_collect w (OpenAI k) pq s = (r, s')"
    and inv: "collected_distinct (session s)"
  shows "\<exists>col'. distinct_queries col' \<and>
           (collected (session s') = Some col' \<or> (col' = [] \<and> collected (session s') = None)) \<and>
           (\<forall>x. r = Inr x \<longrightarrow> x = col')"
proof -
  let ?s0 = "s\<lparr>session := (session s)\<lparr>research_started := Some True\<rparr>\<rparr>"
  let ?col = "case collected (session s) of None \<Rightarrow> [] | Some col \<Rightarrow> col"
  let ?qtr = "if ?col = [] then pq else (case queries (session s) of None \<Rightarrow> pq | Some stored \<Rightarrow> stored)"
  have d: "distinct_queries ?col"
    using inv by (simp add: collected_distinct_def split: option.splits)
  have a: "collected (session ?s0) = Some ?col \<or> (?col = [] \<and> collected (session ?s0) = None)"
    by (simp split: option.splits)
  have u: "main_collect w (OpenAI k) pq s =
             andthen (lift (py_iter ?qtr)) (\<lambda>qs. research_loop w (OpenAI k) ?qtr qs ?col) ?s0"
    by (simp add: main_collect_def)
  show ?thesis
  proof (cases "py_iter ?qtr")
    case (Inl e)
    then have "r = Inl (Raised e)" "s' = ?s0" using m unfolding u by simp_all
    then show ?thesis using d a by blast
  next
    case (Inr qs)
    then have "research_loop w (OpenAI k) ?qtr qs ?col ?s0 = (r, s')" using m unfolding u by simp
    from research_loop_inv [OF this d a] show ?thesis by blast
  qed
qed

lemma main_steps_4_5_inv:
  assumes m: "main_steps_4_5 w (OpenAI k) topic answers s = (r, s')"
    and inv: "collected_distinct (session s)"
  shows "collected_distinct (session s') \<and>
         (\<forall>cid goal col. r = Inr (cid, goal, col) \<longrightarrow>
            distinct_queries col \<and>
            (collected (session s') = Some col \<or> (col = [] \<and> collected (session s') = None)))"
proof -
  obtain r1 s1 where p: "main_plan w (OpenAI k) topic answers s = (r1, s1)"
    by (cases "main_plan w (OpenAI k) topic answers s")
  from main_plan_session [OF p] have c1: "collected (session s1) = collected (session s)"
    by (rule collected_frame_plan)
  then have i1: "collected_distinct (session s1)" using inv by (simp add: collected_distinct_def)
  show ?thesis
  proof (cases r1)
    case (Inl e)
    then have "r = Inl e" "s' = s1" using m p by (simp_all add: main_steps_4_5_def andthen_def)
    then show ?thesis using i1 by simp
  next
    case (Inr pc)
    obtain plan cid where pc: "pc = (plan, cid)" by (cases pc)
    show ?thesis
    proof (cases "subscript plan ''goal''")
      case (Inl e)
      then have "r = Inl (Raised e)" "s' = s1"
        using m p Inr pc by (simp_all add: main_steps_4_5_def andthen_def lift_def)
      then show ?thesis using i1 by simp
    next
      case goal: (Inr goal)
      show ?thesis
      proof (cases "subscript plan ''queries''")
        case (Inl e)
        then have "r = Inl (Raised e)" "s' = s1"
          using m p Inr pc goal by (simp_all add: main_steps_4_5_def andthen_def lift_def)
        then show ?thesis using i1 by simp
      next
        case pq: (Inr pq)
        let ?s2 = "s1\<lparr>trace := trace s1 @
              [Subheader ''Research Goal'', Write_json goal,
               Subheader ''Initial Search Queries'', Write_json pq,
               Button ''Run Research'' ''run_research'']\<rparr>"
        let ?go = "clicked w ''run_research'' \<or> research_started (session s1) = Some True"
        have u: "main_steps_4_5 w (OpenAI k) topic answers s =
                   (if ?go then andthen (main_collect w (OpenAI k) pq) (\<lambda>col. return (cid, goal, col)) ?s2
                    else (Inl Returned, ?s2))"
          using p Inr pc goal pq
          by (simp add: main_steps_4_5_def andthen_def lift_def button_def emit_def return_def
              read_session_def return_early_def)
        show ?thesis
        proof (cases ?go)
          case False
          then have "r = Inl Returned" "s' = ?s2" using m u by simp_all
          then show ?thesis using i1 by (simp add: collected_distinct_def)
        next
          case True
          obtain r3 s3 where mc: "main_collect w (OpenAI k) pq ?s2 = (r3, s3)"
            by (cases "main_collect w (OpenAI k) pq ?s2")
          have i2: "collected_distinct (session ?s2)" using i1 by (simp add: collected_distinct_def)
          from main_collect_inv [OF mc i2] obtain col' where
            1: "distinct_queries col'"
            and 2: "collected (session s3) = Some col' \<or> (col' = [] \<and> collected (session s3) = None)"
            and 3: "\<forall>x. r3 = Inr x \<longrightarrow> x = col'" by blast
          have rs: "(r, s') = (case r3 of Inl e \<Rightarrow> (Inl e, s3) | Inr col \<Rightarrow> (Inr (cid, goal, col), s3))"
            using m u True mc by (simp add: andthen_def split: sum.splits)
          have "collected_distinct (session s3)"
            using 1 2 by (auto simp: collected_distinct_def)
          then show ?thesis using rs 1 2 3 by (cases r3) auto
        qed
      qed
    qed
  qed
qed

lemma evaluate_effect:
  assumes "evaluate w (OpenAI k) goal col s = (r, s1)"
  shows "s1 = s\<lparr>trace := trace s @ [Api_call (evaluate_request goal col)]\<rparr>"
  using assms by (auto simp: evaluate_unfold split: sum.splits)

lemma synthesize_unfold:
  "synthesize w (OpenAI k) goal col s =
     (case service w k (trace s) (synthesize_request goal col) of
        Inl e \<Rightarrow> (Inl (Raised e), s\<lparr>trace := trace s @ [Api_call (synthesize_request goal col)]\<rparr>)
      | Inr final \<Rightarrow>
          (case output_text final 0 of
             Inl e \<Rightarrow> (Inl (Raised e), s\<lparr>trace := trace s @ [Api_call (synthesize_request goal col)]\<rparr>)
           | Inr text \<Rightarrow> (Inr text, s\<lparr>trace := trace s @ [Api_call (synthesize_request goal col)]\<rparr>)))"
  by (simp add: synthesize_def andthen_def responses_create_def lift_def raise_def return_def
      split: sum.splits)

lemma synthesize_effect:
  assumes "synthesize w (OpenAI k) goal col s = (r, s1)"
  shows "s1 = s\<lparr>trace := trace s @ [Api_call (synthesize_request goal col)]\<rparr>"
  using assms by (auto simp: synthesize_unfold split: sum.splits)

lemma main_evaluate_raised:
  assumes "evaluate w (OpenAI k) goal col s = (Inl e, s1)"
  shows "main_evaluate w (OpenAI k) cid goal col s = (Inl e, s1)"
  using assms by (simp add: main_evaluate_def andthen_def)

lemma main_evaluate_true:
  assumes "evaluate w (OpenAI k) goal col s = (Inr True, s1)"
  shows "main_evaluate w (OpenAI k) cid goal col s =
     (case synthesize w (OpenAI k) goal col
             (s1\<lparr>trace := trace s1 @ [Success ''Goal satisfied! Generating final report...'']\<rparr>) of
        (Inl e, s2) \<Rightarrow> (Inl e, s2)
      | (Inr report, s2) \<Rightarrow>
          (Inr (), s2\<lparr>trace := trace s2 @ [Markdown report],
                      session := (session s2)\<lparr>research_started := Some False, collected := Some []\<rparr>\<rparr>))"
  using assms
  by (simp add: main_evaluate_def andthen_def emit_def write_session_def split: prod.splits sum.splits)

lemma main_evaluate_false:
  assumes "evaluate w (OpenAI k) goal col s = (Inr False, s1)"
  shows "main_evaluate w (OpenAI k) cid goal col s =
     (case service w k (trace s1) (more_request col cid) of
        Inl e \<Rightarrow> (Inl (Raised e), s1\<lparr>trace := trace s1 @ [Api_call (more_request col cid)]\<rparr>)
      | Inr resp \<Rightarrow>
          (case output_text resp 0 of
             Inl e \<Rightarrow> (Inl (Raised e), s1\<lparr>trace := trace s1 @ [Api_call (more_request col cid)]\<rparr>)
           | Inr text \<Rightarrow>
               (case loads w text of
                  None \<Rightarrow> (Inl (Raised JSONDecodeError),
                            s1\<lparr>trace := trace s1 @ [Api_call (more_request col cid)]\<rparr>)
                | Some new_queries \<Rightarrow>
                    (Inr (), s1\<lparr>trace := trace s1 @ [Api_call (more_request col cid), Warning
                                 ''More research needed. New queries generated. Click 'Run Research' again.''],
                               session := (session s1)\<lparr>queries := Some new_queries\<rparr>\<rparr>))))"
  using assms
  by (simp add: main_evaluate_def andthen_def responses_create_def json_loads_def lift_def raise_def
      return_def emit_def write_session_def split: sum.splits option.splits)

lemma main_evaluate_collected:
  assumes m: "main_evaluate w (OpenAI k) cid goal col s = (r, s')"
  shows "collected (session s') = collected (session s) \<or> collected (session s') = Some []"
proof -
  obtain r1 s1 where e: "evaluate w (OpenAI k) goal col s = (r1, s1)"
    by (cases "evaluate w (OpenAI k) goal col s")
  have s1: "session s1 = session s" using evaluate_effect [OF e] by simp
  show ?thesis
  proof (cases r1)
    case (Inl x)
    then show ?thesis using m e s1 by (simp add: main_evaluate_raised)
  next
    case (Inr b)
    show ?thesis
    proof (cases b)
      case True
      let ?s = "s1\<lparr>trace := trace s1 @ [Success ''Goal satisfied! Generating final report...'']\<rparr>"
      obtain r2 s2 where y: "synthesize w (OpenAI k) goal col ?s = (r2, s2)"
        by (cases "synthesize w (OpenAI k) goal col ?s")
      have "session s2 = session s" using synthesize_effect [OF y] s1 by simp
      then show ?thesis
        using m e Inr True y by (cases r2) (auto simp: main_evaluate_true)
    next
      case False
      then show ?thesis
        using m e Inr s1 by (auto simp: main_evaluate_false split: sum.splits option.splits)
    qed
  qed
qed

lemma snd_finish: "snd (finish x) = snd x"
  by (cases x) (auto simp: finish_def split: sum.splits exit.splits)

lemma collected_distinct_cong:
  "collected ss' = collected ss \<or> collected ss' = Some [] \<Longrightarrow>
   collected_distinct ss \<Longrightarrow> collected_distinct ss'"
  by (auto simp: collected_distinct_def)

lemma main_inv:
  assumes m: "main w s = (r, s')" and inv: "collected_distinct (session s)"
  shows "collected_distinct (session s')"
proof -
  obtain r1 s3 where a: "main_steps_1_3 w s = (r1, s3)" by (cases "main_steps_1_3 w s")
  have "collected (session s3) = collected (session s)"
    using steps_1_3_session [OF a] by (rule collected_frame_clarify)
  then have i3: "collected_distinct (session s3)" using inv by (simp add: collected_distinct_def)
  show ?thesis
  proof (cases r1)
    case (Inl x)
    then have "s' = s3" using m a by (simp add: main_of_exit)
    then show ?thesis using i3 by simp
  next
    case (Inr v)
    obtain c topic answers where v: "v = (c, topic, answers)" by (cases v)
    obtain k where c: "c = OpenAI k" by (cases c)
    obtain r2 s5 where b: "main_steps_4_5 w (OpenAI k) topic answers s3 = (r2, s5)"
      by (cases "main_steps_4_5 w (OpenAI k) topic answers s3")
    from main_steps_4_5_inv [OF b i3] have i5: "collected_distinct (session s5)" by simp
    have a': "main_steps_1_3 w s = (Inr (OpenAI k, topic, answers), s3)" using a Inr v c by simp
    show ?thesis
    proof (cases r2)
      case (Inl x)
      then have "s' = s5" using m main_of_steps_4_5_exit [OF a'] b by simp
      then show ?thesis using i5 by simp
    next
      case (Inr u)
      obtain cid goal col where u: "u = (cid, goal, col)" by (cases u)
      have "main w s = finish (main_evaluate w (OpenAI k) cid goal col s5)"
        using main_of_steps_4_5 [OF a'] b Inr u by simp
      then have "snd (main w s) = snd (main_evaluate w (OpenAI k) cid goal col s5)"
        by (simp only: snd_finish)
      then have "s' = snd (main_evaluate w (OpenAI k) cid goal col s5)"
        using m by simp
      then have "main_evaluate w (OpenAI k) cid goal col s5 =
                   (fst (main_evaluate w (OpenAI k) cid goal col s5), s')" by simp
      from main_evaluate_collected [OF this] show ?thesis using i5 by (rule collected_distinct_cong)
    qed
  qed
qed

lemma reachable_inv: "reachable ss \<Longrightarrow> collected_distinct ss"
proof (induction rule: reachable.induct)
  case start
  then show ?case by (simp add: collected_distinct_def empty_session_def)
next
  case (rerun ss w r s')
  from main_inv [OF rerun.hyps(2)] rerun.IH show ?case by simp
qed

subsection \<open>Equality on well-formed values is reflexive\<close>

lemma py_eq_list_refl: "(\<And>x. x \<in> set xs \<Longrightarrow> py_eq x x) \<Longrightarrow> py_eq_list xs xs"
  by (induction xs) auto

lemma py_eq_lookup_found:
  "distinct (map fst kvs) \<Longrightarrow> (k, v) \<in> set kvs \<Longrightarrow> py_eq v v \<Longrightarrow> py_eq_lookup k v kvs"
proof (induction kvs)
  case Nil
  then show ?case by simp
next
  case (Cons kv kvs)
  obtain k' v' where kv: "kv = (k', v')" by (cases kv)
  show ?case
  proof (cases "k = k'")
    case True
    with Cons.prems kv have "v = v'" by (auto simp: image_iff)
    then show ?thesis using True kv Cons.prems(3) by simp
  next
    case False
    then show ?thesis using Cons kv by auto
  qed
qed

lemma py_eq_items_refl:
  "distinct (map fst kvs) \<Longrightarrow> set sub \<subseteq> set kvs \<Longrightarrow> (\<And>k v. (k, v) \<in> set sub \<Longrightarrow> py_eq v v) \<Longrightarrow>
   py_eq_items sub kvs"
proof (induction sub)
  case Nil
  then show ?case by simp
next
  case (Cons kv sub)
  obtain k v where kv: "kv = (k, v)" by (cases kv)
  have "py_eq_lookup k v kvs"
    using Cons.prems kv by (intro py_eq_lookup_found) auto
  moreover have "py_eq_items sub kvs" using Cons by auto
  ultimately show ?case using kv by simp
qed

lemma py_eq_refl: "wf_json v \<Longrightarrow> py_eq v v"
proof (induction v)
  case (JArr xs)
  then show ?case by (auto intro!: py_eq_list_refl simp: list_all_iff)
next
  case (JObj kvs)
  have "py_eq_items kvs kvs"
  proof (rule py_eq_items_refl)
    show "distinct (map fst kvs)" using JObj.prems by simp
    show "set kvs \<subseteq> set kvs" by simp
    fix k v assume m: "(k, v) \<in> set kvs"
    then have "wf_json v" using JObj.prems by (auto simp: list_all_iff)
    moreover have "v \<in> Basic_BNFs.snds (k, v)" by simp
    ultimately show "py_eq v v" using JObj.IH m by blast
  qed
  then show ?case by simp
qed (auto split: pyfloat.splits)

lemma distinct_queries_distinct:
  "distinct_queries col \<Longrightarrow> (\<forall>item \<in> set col. wf_json (query item)) \<Longrightarrow> distinct (map query col)"
proof (induction col)
  case Nil
  then show ?case by simp
next
  case (Cons x xs)
  have "query x \<notin> set (map query xs)"
  proof
    assume "query x \<in> set (map query xs)"
    then obtain y where y: "y \<in> set xs" "query y = query x" by auto
    have "py_eq (query x) (query x)" using Cons.prems(2) by (simp add: py_eq_refl)
    then have "py_eq (query x) (query y)" using y by simp
    with y Cons.prems(1) show False by (auto simp: list_ex_iff)
  qed
  then show ?case using Cons by simp
qed

section \<open>Step 6 and the parsing failures\<close>

lemma main_plan_fetch:
  assumes "goal_plan (session s) = None \<or> last_answers (session s) \<noteq> Some answers"
  shows "main_plan w c topic answers s = fetch_plan w c topic answers s"
  using assms by (auto simp: main_plan_def split: option.splits)

lemma fetch_plan_bad_json:
  assumes "service w k (trace s) (goal_request topic answers None) = Inr resp"
    and "output_text resp 0 = Inr text" and "loads w text = None"
  shows "fetch_plan w (OpenAI k) topic answers s =
           (Inl (Raised JSONDecodeError), s\<lparr>trace := trace s @ [Api_call (goal_request topic answers None)]\<rparr>)"
  using assms by (simp add: fetch_plan_def andthen_def get_goal_and_queries_unfold)

lemma main_bad_plan:
  assumes a: "main_steps_1_3 w s = (Inr (OpenAI k, topic, answers), s3)"
    and n: "goal_plan (session s3) = None \<or> last_answers (session s3) \<noteq> Some answers"
    and r: "service w k (trace s3) (goal_request topic answers None) = Inr resp"
    and t: "output_text resp 0 = Inr text" and l: "loads w text = None"
  shows "main w s =
           (Inl JSONDecodeError, s3\<lparr>trace := trace s3 @ [Api_call (goal_request topic answers None)]\<rparr>)"
proof -
  have "main_plan w (OpenAI k) topic answers s3 =
          (Inl (Raised JSONDecodeError), s3\<lparr>trace := trace s3 @ [Api_call (goal_request topic answers None)]\<rparr>)"
    using main_plan_fetch [OF n] fetch_plan_bad_json [OF r t l] by simp
  then have "main_steps_4_5 w (OpenAI k) topic answers s3 =
          (Inl (Raised JSONDecodeError), s3\<lparr>trace := trace s3 @ [Api_call (goal_request topic answers None)]\<rparr>)"
    by (simp add: main_steps_4_5_def andthen_def)
  from main_of_steps_4_5_exit [OF a this] show ?thesis by simp
qed

lemma main_bad_more:
  assumes a: "main_steps_1_3 w s = (Inr (OpenAI k, topic, answers), s3)"
    and b: "main_steps_4_5 w (OpenAI k) topic answers s3 = (Inr (cid, goal, col), s5)"
    and e: "evaluate w (OpenAI k) goal col s5 = (Inr False, s6)"
    and r: "service w k (trace s6) (more_request col cid) = Inr resp"
    and t: "output_text resp 0 = Inr text" and l: "loads w text = None"
  shows "main w s =
           (Inl JSONDecodeError, s6\<lparr>trace := trace s6 @ [Api_call (more_request col cid)]\<rparr>)"
  by (simp add: main_of_steps_4_5 [OF a b] main_evaluate_false [OF e] r t l finish_def)

text \<open>
  C5: when the text parsed in \<open>get_goal_and_queries\<close> is not valid JSON the function
  raises the decoding error; when that happens in \<open>main\<close>, or when the text of the
  follow-up queries is not valid JSON, \<open>main\<close> ends with that error right after the
  request, with nothing shown or stored afterwards.
\<close>

theorem malformed_json_is_not_caught:
  "(\<forall>resp text.
      service w k (trace s) (goal_request topic answers cid) = Inr resp \<and>
      output_text resp 0 = Inr text \<and> loads w text = None \<longrightarrow>
      get_goal_and_queries w (OpenAI k) topic answers cid s =
        (Inl (Raised JSONDecodeError),
         s\<lparr>trace := trace s @ [Api_call (goal_request topic answers cid)]\<rparr>))
 \<and> (\<forall>s3 resp text.
      main_steps_1_3 w s = (Inr (OpenAI k, topic, answers), s3) \<and>
      (goal_plan (session s3) = None \<or> last_answers (session s3) \<noteq> Some answers) \<and>
      service w k (trace s3) (goal_request topic answers None) = Inr resp \<and>
      output_text resp 0 = Inr text \<and> loads w text = None \<longrightarrow>
      main w s =
        (Inl JSONDecodeError,
         s3\<lparr>trace := trace s3 @ [Api_call (goal_request topic answers None)]\<rparr>))
 \<and> (\<forall>s3 pid goal col s5 s6 resp text.
      main_steps_1_3 w s = (Inr (OpenAI k, topic, answers), s3) \<and>
      main_steps_4_5 w (OpenAI k) topic answers s3 = (Inr (pid, goal, col), s5) \<and>
      evaluate w (OpenAI k) goal col s5 = (Inr False, s6) \<and>
      service w k (trace s6) (more_request col pid) = Inr resp \<and>
      output_text resp 0 = Inr text \<and> loads w text = None \<longrightarrow>
      main w s =
        (Inl JSONDecodeError,
         s6\<lparr>trace := trace s6 @ [Api_call (more_request col pid)]\<rparr>))"
proof (intro conjI allI impI)
  fix resp t
  assume "service w k (trace s) (goal_request topic answers cid) = Inr resp \<and>
      output_text resp 0 = Inr t \<and> loads w t = None"
  then show "get_goal_and_queries w (OpenAI k) topic answers cid s =
        (Inl (Raised JSONDecodeError),
         s\<lparr>trace := trace s @ [Api_call (goal_request topic answers cid)]\<rparr>)"
    by (simp add: get_goal_and_queries_unfold)
next
  fix s3 resp t
  assume "main_steps_1_3 w s = (Inr (OpenAI k, topic, answers), s3) \<and>
      (goal_plan (session s3) = None \<or> last_answers (session s3) \<noteq> Some answers) \<and>
      service w k (trace s3) (goal_request topic answers None) = Inr resp \<and>
      output_text resp 0 = Inr t \<and> loads w t = None"
  then show "main w s =
        (Inl JSONDecodeError,
         s3\<lparr>trace := trace s3 @ [Api_call (goal_request topic answers None)]\<rparr>)"
    using main_bad_plan by blast
next
  fix s3 pid goal col s5 s6 resp t
  assume "main_steps_1_3 w s = (Inr (OpenAI k, topic, answers), s3) \<and>
      main_steps_4_5 w (OpenAI k) topic answers s3 = (Inr (pid, goal, col), s5) \<and>
      evaluate w (OpenAI k) goal col s5 = (Inr False, s6) \<and>
      service w k (trace s6) (more_request col pid) = Inr resp \<and>
      output_text resp 0 = Inr t \<and> loads w t = None"
  then show "main w s =
        (Inl JSONDecodeError,
         s6\<lparr>trace := trace s6 @ [Api_call (more_request col pid)]\<rparr>)"
    using main_bad_more by blast
qed

lemma main_satisfied:
  assumes a: "main_steps_1_3 w s = (Inr (OpenAI k, topic, answers), s3)"
    and b: "main_steps_4_5 w (OpenAI k) topic answers s3 = (Inr (cid, goal, col), s5)"
    and e: "evaluate w (OpenAI k) goal col s5 = (Inr True, s6)"
    and y: "synthesize w (OpenAI k) goal col
              (s6\<lparr>trace := trace s6 @ [Success ''Goal satisfied! Generating final report...'']\<rparr>) = (r, s7)"
  shows "(\<forall>report. r = Inr report \<longrightarrow>
            main w s =
              (Inr (), s7\<lparr>trace := trace s7 @ [Markdown report],
                          session := (session s5)\<lparr>research_started := Some False, collected := Some []\<rparr>\<rparr>))
       \<and> (\<forall>x. r = Inl x \<longrightarrow> session (snd (main w s)) = session s5)"
proof -
  have 6: "session s6 = session s5" using evaluate_effect [OF e] by simp
  have 7: "session s7 = session s5" using synthesize_effect [OF y] 6 by simp
  show ?thesis
    by (cases r) (simp_all add: main_of_steps_4_5 [OF a b] main_evaluate_true [OF e] y 7 finish_def
        split: exit.splits)
qed

lemma main_not_satisfied:
  assumes a: "main_steps_1_3 w s = (Inr (OpenAI k, topic, answers), s3)"
    and b: "main_steps_4_5 w (OpenAI k) topic answers s3 = (Inr (cid, goal, col), s5)"
    and e: "evaluate w (OpenAI k) goal col s5 = (Inr False, s6)"
  shows "collected (session (snd (main w s))) = collected (session s5)"
    and "(session (snd (main w s)))\<lparr>queries := None\<rparr> = (session s5)\<lparr>queries := None\<rparr>"
    and "service w k (trace s6) (more_request col cid) = Inr resp \<Longrightarrow>
         output_text resp 0 = Inr text \<Longrightarrow> loads w text = Some nq \<Longrightarrow>
         main w s =
           (Inr (), s6\<lparr>trace := trace s6 @ [Api_call (more_request col cid), Warning
                         ''More research needed. New queries generated. Click 'Run Research' again.''],
                       session := (session s5)\<lparr>queries := Some nq\<rparr>\<rparr>)"
proof -
  have 6: "session s6 = session s5" using evaluate_effect [OF e] by simp
  note m = main_of_steps_4_5 [OF a b] main_evaluate_false [OF e]
  show "collected (session (snd (main w s))) = collected (session s5)"
    by (simp add: m 6 finish_def split: sum.splits option.splits)
  show "(session (snd (main w s)))\<lparr>queries := None\<rparr> = (session s5)\<lparr>queries := None\<rparr>"
    by (simp add: m 6 finish_def split: sum.splits option.splits)
  show "service w k (trace s6) (more_request col cid) = Inr resp \<Longrightarrow>
         output_text resp 0 = Inr text \<Longrightarrow> loads w text = Some nq \<Longrightarrow>
         main w s =
           (Inr (), s6\<lparr>trace := trace s6 @ [Api_call (more_request col cid), Warning
                         ''More research needed. New queries generated. Click 'Run Research' again.''],
                       session := (session s5)\<lparr>queries := Some nq\<rparr>\<rparr>)"
    by (simp add: m 6 finish_def)
qed

text \<open>
  C9: in a run that reaches step 6, when \<open>evaluate\<close> returns true and the report is
  produced, \<open>main\<close> shows it and ends with \<open>research_started\<close> false and \<open>collected\<close>
  empty in the session (nothing is reset when the report fails); when \<open>evaluate\<close> returns
  false, \<open>collected\<close> and every other entry but \<open>queries\<close> stay as they were, and
  \<open>queries\<close> becomes the list parsed from the follow-up response.
\<close>

theorem evaluate_branches_update_session:
  assumes "main_steps_1_3 w s = (Inr (OpenAI k, topic, answers), s3)"
    and "main_steps_4_5 w (OpenAI k) topic answers s3 = (Inr (cid, goal, col), s5)"
    and "evaluate w (OpenAI k) goal col s5 = (Inr b, s6)"
  shows "(b \<longrightarrow>
           (\<forall>report s7.
              synthesize w (OpenAI k) goal col
                (s6\<lparr>trace := trace s6 @ [Success ''Goal satisfied! Generating final report...'']\<rparr>) =
                (Inr report, s7) \<longrightarrow>
              main w s =
                (Inr (), s7\<lparr>trace := trace s7 @ [Markdown report],
                            session := (session s5)\<lparr>research_started := Some False,
                                                      collected := Some []\<rparr>\<rparr>))
         \<and> (\<forall>x s7.
              synthesize w (OpenAI k) goal col
                (s6\<lparr>trace := trace s6 @ [Success ''Goal satisfied! Generating final report...'']\<rparr>) =
                (Inl x, s7) \<longrightarrow>
              session (snd (main w s)) = session s5))
       \<and> (\<not> b \<longrightarrow>
           collected (session (snd (main w s))) = collected (session s5)
         \<and> (session (snd (main w s)))\<lparr>queries := None\<rparr> = (session s5)\<lparr>queries := None\<rparr>
         \<and> (\<forall>resp text nq.
              service w k (trace s6) (more_request col cid) = Inr resp \<and>
              output_text resp 0 = Inr text \<and> loads w text = Some nq \<longrightarrow>
              main w s =
                (Inr (), s6\<lparr>trace := trace s6 @ [Api_call (more_request col cid), Warning
                              ''More research needed. New queries generated. Click 'Run Research' again.''],
                            session := (session s5)\<lparr>queries := Some nq\<rparr>\<rparr>)))"
proof (cases b)
  case True
  with assms(3) have e: "evaluate w (OpenAI k) goal col s5 = (Inr True, s6)" by simp
  show ?thesis
    using True main_satisfied [OF assms(1,2) e] by blast
next
  case False
  with assms(3) have e: "evaluate w (OpenAI k) goal col s5 = (Inr False, s6)" by simp
  show ?thesis
    using False main_not_satisfied [OF assms(1,2) e] by blast
qed

section \<open>The run of the sample world\<close>

lemma sample_service_w: "service (sample_world p r m) = sample_service p r m"
  by (simp add: sample_world_def)

lemma sample_text_values:
  "text_value (sample_world p r m) ''topic'' = '' cats ''"
  "text_value (sample_world p r m) ''answer_0'' = ''fun''"
  "text_value (sample_world p r m) ''answer_1'' = ''me''"
  by (simp_all add: sample_world_def sample_text_value_def)

lemma sample_steps_1_3:
  "main_steps_1_3 (sample_world p r m) (new_page empty_session) =
     (Inr (OpenAI ''sk'', ''cats'', [''fun'', ''me'']), sample_s3)"
  by (simp add: steps_1_3_topic [OF sample_key] sample_text_values strip_cats new_page_def
      andthen_def sample_main_clarify [OF sample_service_w] get_answers_run str_nat_small upt_2
      sample_s3_def)

lemma sample_search:
  "run_search (sample_world p r m) (OpenAI ''sk'') (JStr q) s =
     (Inr (sample_found q), s\<lparr>trace := trace s @ [Api_call (search_request (JStr q))]\<rparr>)"
  by (simp add: run_search_unfold sample_service_w sample_service_def search_request_def
      MODEL_def MODEL_MINI_def TOOLS_def output_at_def output_text_def sample_found_def)

lemma sample_goal_response:
  "sample_service p r m k tr (goal_request topic answers cid) = Inr (text_response ''resp_plan'' p)"
  by (simp add: sample_service_def goal_request_def MODEL_def MODEL_MINI_def)

lemma response_id_text_response: "response_id (text_response i t) = i"
  by (simp add: text_response_def)

lemma query_sample_found: "query (sample_found q) = JStr q"
  by (simp add: sample_found_def)

lemma sample_loads_plan: "loads (sample_world p r m) sample_plan_text = Some sample_plan"
  by (simp add: sample_world_def sample_loads_def sample_plan_def)

lemma sample_clicked: "clicked (sample_world p r m) key"
  by (simp add: sample_world_def)

lemma sample_py_iter: "py_iter (JArr qs) = Inr qs"
  by (simp add: py_iter_def)

lemma sample_steps_4_5:
  "main_steps_4_5 (sample_world sample_plan_text r m) (OpenAI ''sk'') ''cats'' [''fun'', ''me''] sample_s3 =
     (Inr (''resp_plan'', JStr ''g'', [sample_found ''a'', sample_found ''b'']), sample_s5)"
proof -
  let ?w = "sample_world sample_plan_text r m"
  have p: "main_plan ?w (OpenAI ''sk'') ''cats'' [''fun'', ''me''] sample_s3 =
     (Inr (sample_plan, ''resp_plan''),
      sample_s3\<lparr>trace := trace sample_s3 @ [Api_call (goal_request ''cats'' [''fun'', ''me''] None)],
                session := (session sample_s3)\<lparr>goal_plan := Some sample_plan,
                   clarify_id := Some ''resp_plan'', last_answers := Some [''fun'', ''me'']\<rparr>\<rparr>)"
    by (simp add: main_plan_def fetch_plan_def andthen_def get_goal_and_queries_unfold
        sample_service_w sample_goal_response output_text_text_response sample_loads_plan
        sample_s3_def empty_session_def response_id_text_response)
  have g: "subscript sample_plan ''goal'' = Inr (JStr ''g'')"
    "subscript sample_plan ''queries'' = Inr (JArr [JStr ''a'', JStr ''b'', JStr ''a''])"
    by (simp_all add: subscript_def sample_plan_def)
  have l: "list_ex (\<lambda>item. py_eq (query item) (JStr ''a'')) [sample_found ''a'', sample_found ''b'']"
    "\<not> list_ex (\<lambda>item. py_eq (query item) (JStr ''b'')) [sample_found ''a'']"
    by (simp_all add: sample_found_def)
  have c: "collected (session sample_s3) = None"
    by (simp add: sample_s3_def empty_session_def)
  show ?thesis
    apply (simp add: main_steps_4_5_def andthen_def p g lift_def return_def emit_def button_def
        sample_clicked main_collect_def write_session_def read_session_def sample_py_iter
        sample_search query_sample_found c)
    apply (simp add: sample_s5_def sample_s3_def)
    done
qed

lemma sample_review:
  "sample_service p r m k tr (evaluate_request goal col) = Inr (text_response ''resp_review'' r)"
  by (simp add: sample_service_def evaluate_request_def MODEL_def MODEL_MINI_def)

lemma sample_final:
  "sample_service p r m k tr (synthesize_request goal col) = Inr (text_response ''resp_final'' ''report'')"
  by (simp add: sample_service_def synthesize_request_def MODEL_def MODEL_MINI_def)

lemma sample_more:
  "sample_service p r m k tr (more_request col cid) = Inr (text_response ''resp_more'' m)"
  by (simp add: sample_service_def more_request_def MODEL_def MODEL_MINI_def)

lemma sample_evaluate:
  "evaluate (sample_world p r m) (OpenAI ''sk'') goal col s =
     (Inr (str_contains (lower r) ''yes''), s\<lparr>trace := trace s @ [Api_call (evaluate_request goal col)]\<rparr>)"
  by (simp add: evaluate_unfold sample_service_w sample_review output_text_text_response)

lemma sample_verdicts:
  "str_contains (lower ''Yes.'') ''yes'' = True" "str_contains (lower ''No'') ''yes'' = False"
  by code_simp+

lemma sample_loads_more:
  "loads (sample_world p r m) sample_more_text = Some (JArr [JStr ''c'', JStr ''a''])"
  "loads (sample_world p r m) ''oops'' = None"
  by (simp_all add: sample_world_def sample_loads_def sample_more_text_def sample_plan_text_def)

lemma sample_run_no:
  "main (sample_world sample_plan_text ''No'' sample_more_text) (new_page empty_session) =
     (Inr (), sample_s5\<lparr>trace := trace sample_s5 @
        [Api_call (evaluate_request (JStr ''g'') [sample_found ''a'', sample_found ''b'']),
         Api_call (more_request [sample_found ''a'', sample_found ''b''] ''resp_plan''),
         Warning ''More research needed. New queries generated. Click 'Run Research' again.''],
        session := (session sample_s5)\<lparr>queries := Some (JArr [JStr ''c'', JStr ''a''])\<rparr>\<rparr>)"
proof -
  let ?w = "sample_world sample_plan_text ''No'' sample_more_text"
  let ?col = "[sample_found ''a'', sample_found ''b'']"
  let ?s6 = "sample_s5\<lparr>trace := trace sample_s5 @ [Api_call (evaluate_request (JStr ''g'') ?col)]\<rparr>"
  have e: "evaluate ?w (OpenAI ''sk'') (JStr ''g'') ?col sample_s5 = (Inr False, ?s6)"
    by (simp add: sample_evaluate sample_verdicts)
  have r: "service ?w ''sk'' (trace ?s6) (more_request ?col ''resp_plan'') =
             Inr (text_response ''resp_more'' sample_more_text)"
    by (simp add: sample_service_w sample_more)
  from main_not_satisfied(3) [OF sample_steps_1_3 sample_steps_4_5 e r output_text_text_response
      sample_loads_more(1)]
  show ?thesis by simp
qed

theorem duplicate_queries_not_searched_witness:
  "list_ex (\<lambda>item. py_eq (query item) (JStr ''a'')) [sample_found ''a'']
   \<and> research_loop (sample_world sample_plan_text ''No'' sample_more_text) (OpenAI ''sk'')
       (JArr [JStr ''a'', JStr ''c'', JStr ''c'']) [JStr ''a'', JStr ''c'', JStr ''c'']
       [sample_found ''a''] (new_page empty_session) =
     (Inr [sample_found ''a'', sample_found ''c''],
      \<lparr>session = empty_session\<lparr>collected := Some [sample_found ''a'', sample_found ''c''],
                                queries := Some (JArr [JStr ''a'', JStr ''c'', JStr ''c''])\<rparr>,
       trace = [Spinner [Lit ''Searching: '', Str_of (JStr ''c'')],
                Api_call (search_request (JStr ''c''))]\<rparr>)"
proof -
  let ?w = "sample_world sample_plan_text ''No'' sample_more_text"
  let ?q = "JArr [JStr ''a'', JStr ''c'', JStr ''c'']"
  have h: "list_ex (\<lambda>item. py_eq (query item) (JStr ''a'')) [sample_found ''a'']"
    by (simp add: query_sample_found)
  from duplicate_queries_not_searched
    [of "JStr ''a''" "[sample_found ''a'']" ?w "''sk''" ?q "[JStr ''c'', JStr ''c'']" "new_page empty_session",
     THEN conjunct1, rule_format, OF h]
  have "research_loop ?w (OpenAI ''sk'') ?q [JStr ''a'', JStr ''c'', JStr ''c''] [sample_found ''a'']
          (new_page empty_session) =
        research_loop ?w (OpenAI ''sk'') ?q [JStr ''c'', JStr ''c''] [sample_found ''a'']
          (new_page empty_session)" .
  also have "\<dots> = (Inr [sample_found ''a'', sample_found ''c''],
      \<lparr>session = empty_session\<lparr>collected := Some [sample_found ''a'', sample_found ''c''],
                                queries := Some ?q\<rparr>,
       trace = [Spinner [Lit ''Searching: '', Str_of (JStr ''c'')],
                Api_call (search_request (JStr ''c''))]\<rparr>)"
    by (simp add: andthen_def sample_search query_sample_found new_page_def)
  finally show ?thesis using h by simp
qed

theorem malformed_json_is_not_caught_witness:
  "main (sample_world ''oops'' ''No'' sample_more_text) (new_page empty_session) =
     (Inl JSONDecodeError,
      sample_s3\<lparr>trace := trace sample_s3 @ [Api_call (goal_request ''cats'' [''fun'', ''me''] None)]\<rparr>)
   \<and> main (sample_world sample_plan_text ''No'' ''oops'') (new_page empty_session) =
     (Inl JSONDecodeError,
      sample_s5\<lparr>trace := trace sample_s5 @
        [Api_call (evaluate_request (JStr ''g'') [sample_found ''a'', sample_found ''b'']),
         Api_call (more_request [sample_found ''a'', sample_found ''b''] ''resp_plan'')]\<rparr>)"
proof -
  let ?a = "sample_world ''oops'' ''No'' sample_more_text"
  let ?b = "sample_world sample_plan_text ''No'' ''oops''"
  let ?col = "[sample_found ''a'', sample_found ''b'']"
  let ?s6 = "sample_s5\<lparr>trace := trace sample_s5 @ [Api_call (evaluate_request (JStr ''g'') ?col)]\<rparr>"
  have a1: "goal_plan (session sample_s3) = None \<or> last_answers (session sample_s3) \<noteq> Some [''fun'', ''me'']"
    by (simp add: sample_s3_def empty_session_def)
  have a2: "service ?a ''sk'' (trace sample_s3) (goal_request ''cats'' [''fun'', ''me''] None) =
              Inr (text_response ''resp_plan'' ''oops'')"
    by (simp add: sample_service_w sample_goal_response)
  note t = malformed_json_is_not_caught
  from t [of ?a "''sk''" "new_page empty_session" "''cats''" "[''fun'', ''me'']" None,
          THEN conjunct2, THEN conjunct1, rule_format,
          of sample_s3 "text_response ''resp_plan'' ''oops''" "''oops''"]
  have a: "main ?a (new_page empty_session) =
     (Inl JSONDecodeError,
      sample_s3\<lparr>trace := trace sample_s3 @ [Api_call (goal_request ''cats'' [''fun'', ''me''] None)]\<rparr>)"
    using sample_steps_1_3 a1 a2 output_text_text_response sample_loads_more(2) by blast
  have b1: "evaluate ?b (OpenAI ''sk'') (JStr ''g'') ?col sample_s5 = (Inr False, ?s6)"
    by (simp add: sample_evaluate sample_verdicts)
  have b2: "service ?b ''sk'' (trace ?s6) (more_request ?col ''resp_plan'') =
             Inr (text_response ''resp_more'' ''oops'')"
    by (simp add: sample_service_w sample_more)
  from t [of ?b "''sk''" "new_page empty_session" "''cats''" "[''fun'', ''me'']" None,
          THEN conjunct2, THEN conjunct2, rule_format,
          of sample_s3 "''resp_plan''" "JStr ''g''" ?col sample_s5 ?s6
             "text_response ''resp_more'' ''oops''" "''oops''"]
  have "main ?b (new_page empty_session) =
     (Inl JSONDecodeError, ?s6\<lparr>trace := trace ?s6 @ [Api_call (more_request ?col ''resp_plan'')]\<rparr>)"
    using sample_steps_1_3 sample_steps_4_5 b1 b2 output_text_text_response sample_loads_more(2)
    by blast
  then have b: "main ?b (new_page empty_session) =
     (Inl JSONDecodeError,
      sample_s5\<lparr>trace := trace sample_s5 @
        [Api_call (evaluate_request (JStr ''g'') ?col),
         Api_call (more_request ?col ''resp_plan'')]\<rparr>)"
    by simp
  from a b show ?thesis by blast
qed

theorem evaluate_branches_update_session_witness:
  "main (sample_world sample_plan_text ''Yes.'' sample_more_text) (new_page empty_session) =
     (Inr (), sample_s5\<lparr>trace := trace sample_s5 @
        [Api_call (evaluate_request (JStr ''g'') [sample_found ''a'', sample_found ''b'']),
         Success ''Goal satisfied! Generating final report...'',
         Api_call (synthesize_request (JStr ''g'') [sample_found ''a'', sample_found ''b'']),
         Markdown ''report''],
        session := (session sample_s5)\<lparr>research_started := Some False, collected := Some []\<rparr>\<rparr>)
   \<and> main (sample_world sample_plan_text ''No'' sample_more_text) (new_page empty_session) =
     (Inr (), sample_s5\<lparr>trace := trace sample_s5 @
        [Api_call (evaluate_request (JStr ''g'') [sample_found ''a'', sample_found ''b'']),
         Api_call (more_request [sample_found ''a'', sample_found ''b''] ''resp_plan''),
         Warning ''More research needed. New queries generated. Click 'Run Research' again.''],
        session := (session sample_s5)\<lparr>queries := Some (JArr [JStr ''c'', JStr ''a''])\<rparr>\<rparr>)"
proof -
  let ?y = "sample_world sample_plan_text ''Yes.'' sample_more_text"
  let ?n = "sample_world sample_plan_text ''No'' sample_more_text"
  let ?col = "[sample_found ''a'', sample_found ''b'']"
  let ?s6 = "sample_s5\<lparr>trace := trace sample_s5 @ [Api_call (evaluate_request (JStr ''g'') ?col)]\<rparr>"
  let ?s6' = "?s6\<lparr>trace := trace ?s6 @ [Success ''Goal satisfied! Generating final report...'']\<rparr>"
  let ?s7 = "?s6'\<lparr>trace := trace ?s6' @ [Api_call (synthesize_request (JStr ''g'') ?col)]\<rparr>"
  have ey: "evaluate ?y (OpenAI ''sk'') (JStr ''g'') ?col sample_s5 = (Inr True, ?s6)"
    by (simp add: sample_evaluate sample_verdicts)
  have sy: "synthesize ?y (OpenAI ''sk'') (JStr ''g'') ?col ?s6' = (Inr ''report'', ?s7)"
    by (simp add: synthesize_unfold sample_service_w sample_final output_text_text_response)
  have y: "main ?y (new_page empty_session) =
     (Inr (), sample_s5\<lparr>trace := trace sample_s5 @
        [Api_call (evaluate_request (JStr ''g'') ?col),
         Success ''Goal satisfied! Generating final report...'',
         Api_call (synthesize_request (JStr ''g'') ?col),
         Markdown ''report''],
        session := (session sample_s5)\<lparr>research_started := Some False, collected := Some []\<rparr>\<rparr>)"
    using evaluate_branches_update_session [OF sample_steps_1_3 sample_steps_4_5 ey,
        THEN conjunct1, THEN mp, OF TrueI, THEN conjunct1, THEN spec, THEN spec, THEN mp, OF sy]
    by simp
  have en: "evaluate ?n (OpenAI ''sk'') (JStr ''g'') ?col sample_s5 = (Inr False, ?s6)"
    by (simp add: sample_evaluate sample_verdicts)
  have rn: "service ?n ''sk'' (trace ?s6) (more_request ?col ''resp_plan'') =
             Inr (text_response ''resp_more'' sample_more_text)"
    by (simp add: sample_service_w sample_more)
  have nf: "\<not> False" by simp
  have hn: "service ?n ''sk'' (trace ?s6) (more_request ?col ''resp_plan'') =
              Inr (text_response ''resp_more'' sample_more_text) \<and>
            output_text (text_response ''resp_more'' sample_more_text) 0 = Inr sample_more_text \<and>
            loads ?n sample_more_text = Some (JArr [JStr ''c'', JStr ''a''])"
    using rn output_text_text_response sample_loads_more(1) by (intro conjI)
  have n: "main ?n (new_page empty_session) =
     (Inr (), sample_s5\<lparr>trace := trace sample_s5 @
        [Api_call (evaluate_request (JStr ''g'') ?col),
         Api_call (more_request ?col ''resp_plan''),
         Warning ''More research needed. New queries generated. Click 'Run Research' again.''],
        session := (session sample_s5)\<lparr>queries := Some (JArr [JStr ''c'', JStr ''a''])\<rparr>\<rparr>)"
    using evaluate_branches_update_session [OF sample_steps_1_3 sample_steps_4_5 en,
        THEN conjunct2, THEN mp, OF nf, THEN conjunct2, THEN conjunct2,
        THEN spec, THEN spec, THEN spec, THEN mp, OF hn]
    by simp
  from y n show ?thesis by (rule conjI)
qed

text \<open>
  C8: in every session state the page can reach, no two elements of \<open>collected\<close> have
  equal queries (by the comparison the loop uses; for values as Python builds them, the
  queries are pairwise different). The research loop started from such a state keeps
  this for any list of queries, so for every prefix of the list it runs on, and the run
  on a list passes through the state of the run on each prefix.
\<close>

theorem collected_queries_distinct:
  assumes "reachable ss"
  shows "collected_distinct ss
       \<and> (\<forall>col i j. collected ss = Some col \<and> i < j \<and> j < length col \<longrightarrow>
             \<not> py_eq (query (col ! i)) (query (col ! j)))
       \<and> (\<forall>col. collected ss = Some col \<and> (\<forall>item \<in> set col. wf_json (query item)) \<longrightarrow>
             distinct (map query col))
       \<and> (\<forall>w k qtr qs tr r s'.
             research_loop w (OpenAI k) qtr qs (case collected ss of None \<Rightarrow> [] | Some col \<Rightarrow> col)
               \<lparr>session = ss\<lparr>research_started := Some True\<rparr>, trace = tr\<rparr> = (r, s') \<longrightarrow>
             collected_distinct (session s') \<and> (\<forall>col'. r = Inr col' \<longrightarrow> distinct_queries col'))
       \<and> (\<forall>w c qtr xs ys col s.
             research_loop w c qtr (xs @ ys) col s =
               andthen (research_loop w c qtr xs col) (research_loop w c qtr ys) s)"
proof -
  have i: "collected_distinct ss" using assms by (rule reachable_inv)
  have 2: "\<forall>col i j. collected ss = Some col \<and> i < j \<and> j < length col \<longrightarrow>
             \<not> py_eq (query (col ! i)) (query (col ! j))"
    using i distinct_queries_nth by (auto simp: collected_distinct_def)
  have 3: "\<forall>col. collected ss = Some col \<and> (\<forall>item \<in> set col. wf_json (query item)) \<longrightarrow>
             distinct (map query col)"
    using i distinct_queries_distinct by (auto simp: collected_distinct_def)
  have 4: "\<forall>w k qtr qs tr r s'.
             research_loop w (OpenAI k) qtr qs (case collected ss of None \<Rightarrow> [] | Some col \<Rightarrow> col)
               \<lparr>session = ss\<lparr>research_started := Some True\<rparr>, trace = tr\<rparr> = (r, s') \<longrightarrow>
             collected_distinct (session s') \<and> (\<forall>col'. r = Inr col' \<longrightarrow> distinct_queries col')"
  proof (intro allI impI)
    fix w k qtr qs tr r s'
    let ?col = "case collected ss of None \<Rightarrow> [] | Some col \<Rightarrow> col"
    let ?s = "\<lparr>session = ss\<lparr>research_started := Some True\<rparr>, trace = tr\<rparr>"
    assume l: "research_loop w (OpenAI k) qtr qs ?col ?s = (r, s')"
    have d: "distinct_queries ?col" using i by (simp add: collected_distinct_def split: option.splits)
    have a: "collected (session ?s) = Some ?col \<or> (?col = [] \<and> collected (session ?s) = None)"
      by (simp split: option.splits)
    from research_loop_inv [OF l d a] obtain col' where
      "distinct_queries col'"
      "collected (session s') = Some col' \<or> (col' = [] \<and> collected (session s') = None)"
      "\<forall>x. r = Inr x \<longrightarrow> x = col'" by blast
    then show "collected_distinct (session s') \<and> (\<forall>col'. r = Inr col' \<longrightarrow> distinct_queries col')"
      by (auto simp: collected_distinct_def)
  qed
  have 5: "\<forall>w c qtr xs ys col s.
             research_loop w c qtr (xs @ ys) col s =
               andthen (research_loop w c qtr xs col) (research_loop w c qtr ys) s"
    by (simp add: research_loop_append)
  show ?thesis
    apply (intro conjI)
        apply (rule i)
       apply (rule 2)
      apply (rule 3)
     apply (rule 4)
    apply (rule 5)
    done
qed

theorem collected_queries_distinct_witness:
  "reachable ((session sample_s5)\<lparr>queries := Some (JArr [JStr ''c'', JStr ''a''])\<rparr>)
   \<and> collected ((session sample_s5)\<lparr>queries := Some (JArr [JStr ''c'', JStr ''a''])\<rparr>) =
       Some [sample_found ''a'', sample_found ''b'']
   \<and> \<not> py_eq (query (sample_found ''a'')) (query (sample_found ''b''))
   \<and> distinct (map query [sample_found ''a'', sample_found ''b''])"
proof -
  let ?ss = "(session sample_s5)\<lparr>queries := Some (JArr [JStr ''c'', JStr ''a''])\<rparr>"
  have m: "main (sample_world sample_plan_text ''No'' sample_more_text)
             \<lparr>session = empty_session, trace = []\<rparr> =
           (Inr (), sample_s5\<lparr>trace := trace sample_s5 @
        [Api_call (evaluate_request (JStr ''g'') [sample_found ''a'', sample_found ''b'']),
         Api_call (more_request [sample_found ''a'', sample_found ''b''] ''resp_plan''),
         Warning ''More research needed. New queries generated. Click 'Run Research' again.''],
        session := ?ss\<rparr>)"
    using sample_run_no by (simp add: new_page_def)
  from reachable.rerun [OF reachable.start m] have r: "reachable ?ss" by simp
  have c: "collected ?ss = Some [sample_found ''a'', sample_found ''b'']"
    by (simp add: sample_s5_def)
  have w: "\<forall>item \<in> set [sample_found ''a'', sample_found ''b'']. wf_json (query item)"
    by (simp add: query_sample_found)
  have b: "collected ?ss = Some [sample_found ''a'', sample_found ''b''] \<and> (0::nat) < 1 \<and>
           1 < length [sample_found ''a'', sample_found ''b'']"
    using c by simp
  have "\<not> py_eq (query ([sample_found ''a'', sample_found ''b''] ! 0))
                        (query ([sample_found ''a'', sample_found ''b''] ! 1))"
    using collected_queries_distinct [OF r, THEN conjunct2, THEN conjunct1,
        THEN spec, THEN spec, THEN spec, THEN mp, OF b] .
  then have p: "\<not> py_eq (query (sample_found ''a'')) (query (sample_found ''b''))" by simp
  have d: "distinct (map query [sample_found ''a'', sample_found ''b''])"
    using collected_queries_distinct [OF r, THEN conjunct2, THEN conjunct2, THEN conjunct1,
        THEN spec, THEN mp, OF conjI, OF c w] .
  from r c p d show ?thesis by (intro conjI)
qed

theorem whitespace_topic_is_empty_topic_witness:
  "get_topic (sample_world sample_plan_text ''Yes.'' sample_more_text) (new_page empty_session) =
     (Inr ''cats'', \<lparr>session = empty_session, trace = [Text_input ''Research topic:'' ''topic'']\<rparr>)
   \<and> list_all isspace '' \<newline> ''
   \<and> get_topic ((sample_world sample_plan_text ''Yes.'' sample_more_text)\<lparr>text_value := (\<lambda>key. '' \<newline> '')\<rparr>)
        (new_page empty_session) =
      (Inr [], \<lparr>session = empty_session, trace = [Text_input ''Research topic:'' ''topic'']\<rparr>)
   \<and> main ((sample_world sample_plan_text ''Yes.'' sample_more_text)\<lparr>text_value := (\<lambda>key. '' \<newline> '')\<rparr>)
        (new_page empty_session) =
      (Inr (), \<lparr>session = empty_session, trace =
                  [Title ''Deep Research Clone'',
                   Write_text ''AI-powered research assistant with web search.'',
                   Text_input ''Research topic:'' ''topic'',
                   Info ''Enter a research topic to begin.'']\<rparr>)"
proof -
  let ?c = "sample_world sample_plan_text ''Yes.'' sample_more_text"
  let ?w = "?c\<lparr>text_value := (\<lambda>key. '' \<newline> '')\<rparr>"
  have h: "list_all isspace (text_value ?w ''topic'')"
    by (simp add: isspace_def)
  have k: "getenv ?w ''OPENAI_API_KEY'' = Some ''sk'' \<and> ''sk'' \<noteq> []"
    by (simp add: sample_world_def)
  have 1: "get_topic ?c (new_page empty_session) =
     (Inr ''cats'', \<lparr>session = empty_session, trace = [Text_input ''Research topic:'' ''topic'']\<rparr>)"
    using whitespace_topic_is_empty_topic [of ?c "new_page empty_session", THEN conjunct1]
    by (simp add: new_page_def sample_text_values strip_cats)
  note t = whitespace_topic_is_empty_topic [of ?w "new_page empty_session",
      THEN conjunct2, THEN conjunct2, THEN conjunct2, THEN mp, OF h]
  have 2: "get_topic ?w (new_page empty_session) =
      (Inr [], \<lparr>session = empty_session, trace = [Text_input ''Research topic:'' ''topic'']\<rparr>)"
    using t [THEN conjunct1] by (simp add: new_page_def)
  have 3: "main ?w (new_page empty_session) =
      (Inr (), \<lparr>session = empty_session, trace =
                  [Title ''Deep Research Clone'',
                   Write_text ''AI-powered research assistant with web search.'',
                   Text_input ''Research topic:'' ''topic'',
                   Info ''Enter a research topic to begin.'']\<rparr>)"
    using t [THEN conjunct2, THEN conjunct2, THEN conjunct2, THEN spec, THEN mp, OF k]
    by (simp add: new_page_def)
  have 0: "list_all isspace '' \<newline> ''" by (simp add: isspace_def)
  from 1 0 2 3 show ?thesis by (intro conjI)
qed

end
